theory Spec2Isabelle
  imports Main "HOL-Library.Char_ord" "HOL-Library.List_Lexorder"
begin

section \<open>Data model of the cue server\<close>

text \<open>
  The server keeps its tables in pandas data frames. A cell of a frame is either a
  value or the missing value \<open>nan\<close>; a cell is modelled as an option, \<open>None\<close> being
  \<open>nan\<close>. Cue numbers, prefixes and the other entries of the user sheets are text.
\<close>

type_synonym cell = "string option"

text \<open>Exceptions that the modelled functions raise or let through.\<close>

datatype format_problem = column_titles | cue_prefix_problem string | cue_states_problem

datatype py_exn =
    FormatError string format_problem
  | KeyError
  | ValueError
  | UnboundLocalError
  | OutOfBoundsDatetime

text \<open>A row of the attributes sheet and a row of the states sheet (indexed by cue state).\<close>

record attribute =
  mac_address :: cell
  node_number :: cell
  node_name :: cell
  attr_cue_prefix :: cell

record state_row =
  state_name :: string
  initial_node_state :: cell
  final_node_state :: cell

text \<open>
  A row of the formatted all-cues frame: the index is the pair (Cue Group Number,
  Cue Number), the columns are Cue Prefix, When, Action and Cue State. The final
  \<open>dropna\<close> of \<open>format_all_cues\<close> leaves no missing cell in such a row.
\<close>

record cue =
  cue_group_number :: int
  cue_number :: string
  cue_prefix :: string
  cue_when :: string
  cue_action :: string
  cue_state :: string

text \<open>A row of the current-cues frame: indexed by Cue Prefix, the group level is gone.\<close>

record current_cue =
  cur_prefix :: string
  cur_number :: string
  cur_when :: string
  cur_action :: string
  cur_state :: string

text \<open>
  A row of the nodes frame, indexed by Cue Number. The Timestamp cell holds a
  timezone-naive \<open>pd.Timestamp\<close> (modelled as a count of microseconds, the
  resolution of \<open>pd.Timestamp.now()\<close> on the node) or anything else (\<open>None\<close>).
  The column Last Updated exists only once \<open>update_last_updated\<close> has run on the
  frame; \<open>nf_has_last_updated\<close> records whether it does.
\<close>

record node_row =
  node_cue_number :: string
  node_when :: cell
  node_action :: cell
  node_cue_state :: cell
  node_node_number :: cell
  node_node_state :: cell
  node_timestamp :: "int option"
  node_last_updated :: cell

record nodes_frame =
  nf_rows :: "node_row list"
  nf_has_last_updated :: bool

text \<open>
  The data attributes of \<open>ServerDataManagement\<close>. The current group number is the
  content of an \<open>IntManager\<close>; it and \<open>maxCueGroup\<close> are numbers that can be \<open>nan\<close>
  (the maximum of an empty column), again written \<open>None\<close>.
\<close>

record server_data =
  attributes :: "attribute list"
  allCues :: "cue list"
  states :: "state_row list"
  currentCues :: "current_cue list"
  nodes :: nodes_frame
  cueNum :: "int option"
  maxCueGroup :: "int option"

type_synonym 'a outcome = "(py_exn + 'a) \<times> server_data"

section \<open>Cue navigation\<close>

text \<open>\<open>update_max_cue_group\<close>: the maximum of the Cue Group Number column.\<close>

definition max_group_of :: "cue list \<Rightarrow> int option" where
  "max_group_of cs = (if cs = [] then None else Some (Max (set (map cue_group_number cs))))"

definition update_max_cue_group :: "server_data \<Rightarrow> server_data" where
  "update_max_cue_group st = st\<lparr>maxCueGroup := max_group_of (allCues st)\<rparr>"

text \<open>
  \<open>reset_nodes\<close>: one row per current cue with the columns Cue Number, When, Action,
  Cue State taken over and Node Number, Node State, Timestamp missing.
\<close>

definition node_shell :: "current_cue \<Rightarrow> node_row" where
  "node_shell c = \<lparr>node_cue_number = cur_number c, node_when = Some (cur_when c),
     node_action = Some (cur_action c), node_cue_state = Some (cur_state c),
     node_node_number = None, node_node_state = None, node_timestamp = None,
     node_last_updated = None\<rparr>"

definition reset_nodes :: "server_data \<Rightarrow> server_data" where
  "reset_nodes st =
     st\<lparr>nodes := \<lparr>nf_rows = map node_shell (currentCues st), nf_has_last_updated = False\<rparr>\<rparr>"

definition to_current :: "cue \<Rightarrow> current_cue" where
  "to_current c = \<lparr>cur_prefix = cue_prefix c, cur_number = cue_number c,
     cur_when = cue_when c, cur_action = cue_action c, cur_state = cue_state c\<rparr>"

text \<open>
  \<open>format_current_cues\<close>: \<open>allCues.loc[int(cueNum)]\<close> selects the rows of the current
  group. \<open>int\<close> of \<open>nan\<close> raises ValueError and a group number that is no key of the
  frame raises KeyError; in both cases nothing has been stored yet.
\<close>

definition group_rows :: "int \<Rightarrow> cue list \<Rightarrow> cue list" where
  "group_rows g cs = filter (\<lambda>c. cue_group_number c = g) cs"

definition format_current_cues :: "server_data \<Rightarrow> unit outcome" where
  "format_current_cues st =
     (case cueNum st of
        None \<Rightarrow> (Inl ValueError, st)
      | Some g \<Rightarrow>
          (if group_rows g (allCues st) = [] then (Inl KeyError, st)
           else (Inr (), reset_nodes (st\<lparr>currentCues := map to_current (group_rows g (allCues st))\<rparr>))))"

text \<open>
  \<open>previous_cue\<close>, \<open>next_cue\<close> and \<open>warp_cue\<close>. The comparisons are Python's: a
  comparison with \<open>nan\<close> is false, and \<open>nan - 1\<close> is \<open>nan\<close>. \<open>next_cue\<close> evaluates
  \<open>int(self.cueNum)\<close> first, which raises on \<open>nan\<close>.
\<close>

definition previous_cue :: "server_data \<Rightarrow> unit outcome" where
  "previous_cue st =
     format_current_cues
       (if cueNum st = Some 0 then st\<lparr>cueNum := maxCueGroup st\<rparr>
        else st\<lparr>cueNum := map_option (\<lambda>c. c - 1) (cueNum st)\<rparr>)"

definition next_cue :: "server_data \<Rightarrow> unit outcome" where
  "next_cue st =
     (case cueNum st of
        None \<Rightarrow> (Inl ValueError, st)
      | Some c \<Rightarrow>
          format_current_cues
            (if maxCueGroup st = Some c then st\<lparr>cueNum := Some 0\<rparr>
             else st\<lparr>cueNum := Some (c + 1)\<rparr>))"

definition warp_cue :: "int \<Rightarrow> server_data \<Rightarrow> bool outcome" where
  "warp_cue n st =
     (if 0 \<le> n \<and> (case maxCueGroup st of None \<Rightarrow> False | Some m \<Rightarrow> n \<le> m) then
        (case format_current_cues (st\<lparr>cueNum := Some n\<rparr>) of
           (Inl e, st') \<Rightarrow> (Inl e, st')
         | (Inr u, st') \<Rightarrow> (Inr True, st'))
      else (Inr False, st))"

text \<open>
  The state a call leaves behind, whether it returned or raised, and a run of \<open>k\<close>
  consecutive calls that ends at the first exception.
\<close>

definition after :: "(server_data \<Rightarrow> 'a outcome) \<Rightarrow> server_data \<Rightarrow> server_data" where
  "after f st = snd (f st)"

fun repeat_call :: "nat \<Rightarrow> (server_data \<Rightarrow> unit outcome) \<Rightarrow> server_data \<Rightarrow> unit outcome" where
  "repeat_call 0 f st = (Inr (), st)"
| "repeat_call (Suc k) f st =
     (case f st of (Inl e, st') \<Rightarrow> (Inl e, st') | (Inr u, st') \<Rightarrow> repeat_call k f st')"

text \<open>Every group number from 0 to \<open>m\<close> is a key of the all-cues frame.\<close>

definition groups_present :: "int \<Rightarrow> server_data \<Rightarrow> bool" where
  "groups_present m st = (\<forall>g. 0 \<le> g \<and> g \<le> m \<longrightarrow> group_rows g (allCues st) \<noteq> [])"

section \<open>Node status\<close>

text \<open>
  A received node series: the value under the label Cue Number and the values under
  the labels that are columns of the nodes frame (\<open>None\<close> where the series has no such
  label or holds \<open>nan\<close>).
\<close>

record node_series =
  ser_cue_number :: string
  ser_when :: cell
  ser_action :: cell
  ser_cue_state :: cell
  ser_node_number :: cell
  ser_node_state :: cell
  ser_timestamp :: "int option"

text \<open>
  \<open>round(timedelta.total_seconds() / 60)\<close>: times are counts of microseconds, the
  resolution of \<open>pd.Timestamp.now()\<close>; the quotient is taken exactly and rounded to
  the nearest integer, a tie going to the even one, as Python's \<open>round\<close> does.
\<close>

definition round_half_even :: "int \<Rightarrow> int \<Rightarrow> int" where
  "round_half_even a b =
     (let q = a div b; r = a mod b
      in if 2 * r < b then q else if b < 2 * r then q + 1 else if even q then q else q + 1)"

definition total_minutes :: "int \<Rightarrow> int" where
  "total_minutes elapsed = round_half_even elapsed 60000000"

text \<open>The decimal text of an integer, as an f-string prints it.\<close>

fun str_nat :: "nat \<Rightarrow> string" where
  "str_nat n = (if n < 10 then [char_of (48 + n)] else str_nat (n div 10) @ [char_of (48 + n mod 10)])"

declare str_nat.simps [simp del]

definition str_int :: "int \<Rightarrow> string" where
  "str_int i = (if i < 0 then CHR ''-'' # str_nat (nat (- i)) else str_nat (nat i))"

text \<open>
  \<open>pd.Timestamp.now() - timestamp\<close> is a \<open>Timedelta\<close>, a 64-bit count of nanoseconds.
  A difference that does not fit (more than about 292 years) makes the subtraction
  raise OutOfBoundsDatetime.
\<close>

definition timedelta_fits :: "int \<Rightarrow> bool" where
  "timedelta_fits elapsed = (- (2 ^ 63) < 1000 * elapsed \<and> 1000 * elapsed < 2 ^ 63)"

definition format_timestamp :: "int \<Rightarrow> int option \<Rightarrow> py_exn + cell" where
  "format_timestamp now timestamp =
     (case timestamp of
        Some t \<Rightarrow>
          (if timedelta_fits (now - t) then
             (let totalMin = total_minutes (now - t)
              in if totalMin \<le> 99 then Inr (Some (str_int totalMin @ '' min''))
                 else Inr (Some ''>99 min''))
           else Inl OutOfBoundsDatetime)
      | None \<Rightarrow> Inr None)"

text \<open>
  \<open>Series.map\<close> calls the function on the values in order; the first exception ends
  it.
\<close>

fun series_map :: "('a \<Rightarrow> py_exn + 'b) \<Rightarrow> 'a list \<Rightarrow> py_exn + 'b list" where
  "series_map f [] = Inr []"
| "series_map f (x # xs) =
     (case f x of
        Inl e \<Rightarrow> Inl e
      | Inr y \<Rightarrow> (case series_map f xs of Inl e \<Rightarrow> Inl e | Inr ys \<Rightarrow> Inr (y # ys)))"

text \<open>
  \<open>update_last_updated\<close> works on a copy of the frame and stores it at the end, so an
  exception of \<open>format_timestamp\<close> leaves the stored frame as it was.
\<close>

definition update_last_updated :: "int \<Rightarrow> server_data \<Rightarrow> unit outcome" where
  "update_last_updated now st =
     (case series_map (format_timestamp now) (map node_timestamp (nf_rows (nodes st))) of
        Inl e \<Rightarrow> (Inl e, st)
      | Inr column \<Rightarrow>
          (Inr (), st\<lparr>nodes := \<lparr>nf_rows = map (\<lambda>(r, v). r\<lparr>node_last_updated := v\<rparr>)
                                              (zip (nf_rows (nodes st)) column),
                                nf_has_last_updated = True\<rparr>\<rparr>))"

text \<open>
  \<open>nodesFrame.loc[cueNum] = series\<close>, reached only when \<open>cueNum\<close> is in the index. When
  one row carries that index value, the row takes the series' values column by
  column; a column the series has no label for (Last Updated) becomes missing. When
  several rows carry it, the assignment of a series to more than one row raises
  ValueError.
\<close>

definition assign_series :: "node_series \<Rightarrow> node_row \<Rightarrow> node_row" where
  "assign_series s r = \<lparr>node_cue_number = node_cue_number r, node_when = ser_when s,
     node_action = ser_action s, node_cue_state = ser_cue_state s,
     node_node_number = ser_node_number s, node_node_state = ser_node_state s,
     node_timestamp = ser_timestamp s, node_last_updated = None\<rparr>"

definition apply_series :: "node_series \<Rightarrow> node_row list \<Rightarrow> py_exn + node_row list" where
  "apply_series s rows =
     (if ser_cue_number s \<in> set (map node_cue_number rows)
      then (if length (filter (\<lambda>r. node_cue_number r = ser_cue_number s) rows) = 1
            then Inr (map (\<lambda>r. if node_cue_number r = ser_cue_number s then assign_series s r else r) rows)
            else Inl ValueError)
      else Inr rows)"

text \<open>The loop of \<open>format_nodes\<close> over the received series, on its copy of the frame.\<close>

fun series_loop :: "node_series list \<Rightarrow> node_row list \<Rightarrow> py_exn + node_row list" where
  "series_loop [] nodesFrame = Inr nodesFrame"
| "series_loop (series # node_series_list) nodesFrame =
     (case apply_series series nodesFrame of
        Inl e \<Rightarrow> Inl e
      | Inr nodesFrame' \<Rightarrow> series_loop node_series_list nodesFrame')"

text \<open>
  \<open>format_nodes\<close>: an exception in the loop leaves the stored frame untouched; after
  the loop the frame is stored, and then \<open>update_last_updated\<close> runs.
\<close>

definition format_nodes :: "int \<Rightarrow> node_series list option \<Rightarrow> server_data \<Rightarrow> unit outcome" where
  "format_nodes now node_series_list st =
     (case node_series_list of
        None \<Rightarrow> (Inr (), st)
      | Some series \<Rightarrow>
          (case series_loop series (nf_rows (nodes st)) of
             Inl e \<Rightarrow> (Inl e, st)
           | Inr nodesFrame \<Rightarrow>
               update_last_updated now (st\<lparr>nodes := (nodes st)\<lparr>nf_rows := nodesFrame\<rparr>\<rparr>)))"

section \<open>Communication with the ALFRED daemon\<close>

text \<open>
  Byte strings are lists of characters. The two library functions that
  \<open>__data_decode\<close> calls are parameters of the model: \<open>unescape\<close> stands for
  \<open>escape_decode(_, 'hex')[0]\<close> and yields \<open>None\<close> where that raises ValueError;
  \<open>loads\<close> stands for \<open>pickle.loads\<close> and tells a loaded value from an
  UnpicklingError and from any other exception.
\<close>

type_synonym bytes = string

datatype 'v load_outcome = Loaded 'v | Unpickling_Error | Other_Error

text \<open>\<open>data.split(b'",')\<close>: the pieces between the occurrences of the two-byte separator.\<close>

fun split_on :: "char \<Rightarrow> char \<Rightarrow> bytes \<Rightarrow> bytes list" where
  "split_on a b [] = [[]]"
| "split_on a b [c] = [[c]]"
| "split_on a b (c # d # r) =
     (if c = a \<and> d = b then [] # split_on a b r
      else (case split_on a b (d # r) of
              [] \<Rightarrow> [[c]]
            | x # xs \<Rightarrow> (c # x) # xs))"

definition is_space :: "char \<Rightarrow> bool" where
  "is_space c = (c \<in> {CHR 0x20, CHR 0x09, CHR 0x0A, CHR 0x0D, CHR 0x0B, CHR 0x0C})"

definition strip :: "bytes \<Rightarrow> bytes" where
  "strip b = rev (dropWhile is_space (rev (dropWhile is_space b)))"

definition lstrip_quote :: "bytes \<Rightarrow> bytes" where
  "lstrip_quote b = dropWhile (\<lambda>c. c = CHR 0x22) b"

definition records_of :: "bytes \<Rightarrow> bytes list" where
  "records_of data =
     map (\<lambda>element. lstrip_quote (strip element))
       (filter (\<lambda>element. CHR ''.'' \<in> set element) (split_on (CHR 0x22) (CHR '','') data))"

text \<open>
  The list comprehension \<open>[loads(element) for element in data]\<close> stops at the first
  element whose \<open>loads\<close> raises.
\<close>

fun load_each :: "(bytes \<Rightarrow> 'v load_outcome) \<Rightarrow> bytes list \<Rightarrow> 'v list load_outcome" where
  "load_each loads [] = Loaded []"
| "load_each loads (element # data) =
     (case loads element of
        Loaded v \<Rightarrow>
          (case load_each loads data of
             Loaded vs \<Rightarrow> Loaded (v # vs)
           | Unpickling_Error \<Rightarrow> Unpickling_Error
           | Other_Error \<Rightarrow> Other_Error)
      | Unpickling_Error \<Rightarrow> Unpickling_Error
      | Other_Error \<Rightarrow> Other_Error)"

text \<open>
  \<open>__data_decode\<close>. The \<open>try\<close> has a handler for UnpicklingError only and a
  \<open>finally\<close> that returns \<open>decodedObjects\<close>: after any other exception of \<open>loads\<close> that
  name is unbound and the \<open>return\<close> raises UnboundLocalError. The two
  \<open>escape_decode\<close> calls stand before the \<open>try\<close>.
\<close>

definition data_decode ::
  "(bytes \<Rightarrow> bytes option) \<Rightarrow> (bytes \<Rightarrow> 'v load_outcome) \<Rightarrow> bytes \<Rightarrow> py_exn + 'v list" where
  "data_decode unescape loads data =
     (case unescape data of
        None \<Rightarrow> Inl ValueError
      | Some once \<Rightarrow>
          (case unescape once of
             None \<Rightarrow> Inl ValueError
           | Some twice \<Rightarrow>
               (case load_each loads (records_of twice) of
                  Loaded decodedObjects \<Rightarrow> Inr decodedObjects
                | Unpickling_Error \<Rightarrow> Inr []
                | Other_Error \<Rightarrow> Inl UnboundLocalError)))"

text \<open>
  \<open>receive_data\<close>: \<open>output\<close> is what the daemon printed for the request. The result is
  \<open>None\<close>, one decoded object or the list of decoded objects; the decoded list is
  stored in \<open>received_data_dict\<close> first.
\<close>

datatype 'v received = Nothing | Single 'v | Many "'v list"

definition receive_data ::
  "(bytes \<Rightarrow> bytes option) \<Rightarrow> (bytes \<Rightarrow> 'v load_outcome) \<Rightarrow> bytes \<Rightarrow>
   int \<Rightarrow> bool \<Rightarrow> (int \<rightharpoonup> 'v list) \<Rightarrow> (py_exn + 'v received) \<times> (int \<rightharpoonup> 'v list)" where
  "receive_data unescape loads output datatype singular received_data_dict =
     (case data_decode unescape loads output of
        Inl e \<Rightarrow> (Inl e, received_data_dict)
      | Inr data \<Rightarrow>
          (if data = [] then (Inr Nothing, received_data_dict(datatype \<mapsto> data))
           else if length data = 1 \<and> singular then (Inr (Single (hd data)), received_data_dict(datatype \<mapsto> data))
           else (Inr (Many data), received_data_dict(datatype \<mapsto> data))))"

text \<open>
  \<open>codecs.escape_decode\<close> of CPython with an error handler name that is neither
  strict, replace nor ignore: a backslash escape is replaced by the byte it denotes,
  an unknown escape keeps its backslash, and a trailing backslash or a malformed
  \<open>\x\<close> escape raises ValueError.
\<close>

definition hex_digit :: "char \<Rightarrow> nat option" where
  "hex_digit c =
     (let n = of_char c :: nat
      in if 48 \<le> n \<and> n \<le> 57 then Some (n - 48)
         else if 97 \<le> n \<and> n \<le> 102 then Some (n - 87)
         else if 65 \<le> n \<and> n \<le> 70 then Some (n - 55)
         else None)"

definition oct_digit :: "char \<Rightarrow> nat option" where
  "oct_digit c = (let n = of_char c :: nat in if 48 \<le> n \<and> n \<le> 55 then Some (n - 48) else None)"

fun escape_decode :: "bytes \<Rightarrow> bytes option" where
  "escape_decode [] = Some []"
| "escape_decode [c] = (if c = CHR 0x5C then None else Some [c])"
| "escape_decode (c # e # r) =
     (if c \<noteq> CHR 0x5C then map_option (Cons c) (escape_decode (e # r))
      else if e = CHR 0x0A then escape_decode r
      else if e = CHR 0x5C then map_option (Cons (CHR 0x5C)) (escape_decode r)
      else if e = CHR 0x27 then map_option (Cons (CHR 0x27)) (escape_decode r)
      else if e = CHR 0x22 then map_option (Cons (CHR 0x22)) (escape_decode r)
      else if e = CHR ''b'' then map_option (Cons (CHR 0x08)) (escape_decode r)
      else if e = CHR ''f'' then map_option (Cons (CHR 0x0C)) (escape_decode r)
      else if e = CHR ''t'' then map_option (Cons (CHR 0x09)) (escape_decode r)
      else if e = CHR ''n'' then map_option (Cons (CHR 0x0A)) (escape_decode r)
      else if e = CHR ''r'' then map_option (Cons (CHR 0x0D)) (escape_decode r)
      else if e = CHR ''v'' then map_option (Cons (CHR 0x0B)) (escape_decode r)
      else if e = CHR ''a'' then map_option (Cons (CHR 0x07)) (escape_decode r)
      else if e = CHR ''x'' then
        (case r of
           h1 # h2 # r' \<Rightarrow>
             (case (hex_digit h1, hex_digit h2) of
                (Some d1, Some d2) \<Rightarrow> map_option (Cons (char_of (16 * d1 + d2))) (escape_decode r')
              | _ \<Rightarrow> None)
         | _ \<Rightarrow> None)
      else (case oct_digit e of
              Some d1 \<Rightarrow>
                (case r of
                   o2 # r2 \<Rightarrow>
                     (case oct_digit o2 of
                        Some d2 \<Rightarrow>
                          (case r2 of
                             o3 # r3 \<Rightarrow>
                               (case oct_digit o3 of
                                  Some d3 \<Rightarrow> map_option (Cons (char_of (64 * d1 + 8 * d2 + d3))) (escape_decode r3)
                                | None \<Rightarrow> map_option (Cons (char_of (8 * d1 + d2))) (escape_decode r2))
                           | [] \<Rightarrow> Some [char_of (8 * d1 + d2)])
                      | None \<Rightarrow> map_option (Cons (char_of d1)) (escape_decode r))
                 | [] \<Rightarrow> Some [char_of d1])
            | None \<Rightarrow> map_option (Cons (CHR 0x5C)) (escape_decode (e # r))))"

section \<open>Formatting the all-cues sheet\<close>

text \<open>
  The frame the operator opens is read with its first column as the index.
  \<open>raw_index_name\<close> and \<open>raw_column_names\<close> are the labels that
  \<open>reset_index().columns\<close> lists. The rows are looked at only after the check of
  these labels, when the four columns are Cue Number, When, Action and Cue State in
  some order. A row is the index value and the values of the three other columns,
  taken in the order Cue Number, When, Action, Cue State with the index column left
  out. Only the call with \<open>formatted=False\<close> is modelled, the one the file dialog makes.
\<close>

type_synonym data_cells = "cell \<times> cell \<times> cell"

type_synonym raw_row = "cell \<times> data_cells"

record raw_table =
  raw_index_name :: string
  raw_column_names :: "string list"
  raw_rows :: "raw_row list"

definition no_data :: data_cells where
  "no_data = (None, None, None)"

definition check_columns_names :: "string list \<Rightarrow> string list \<Rightarrow> format_problem + unit" where
  "check_columns_names columns column_names =
     (if sort columns \<noteq> sort column_names then Inl column_titles else Inr ())"

text \<open>
  \<open>__get_prefix\<close>. Text is a list of characters with code points below 256; among
  these \<open>str.isdigit\<close> holds of the ten ASCII digits and of the superscript digits
  U+00B2, U+00B3 and U+00B9.
\<close>

definition isdigit :: "char \<Rightarrow> bool" where
  "isdigit c = (c \<in> set ''0123456789'' \<or> c \<in> {CHR 0xB2, CHR 0xB3, CHR 0xB9})"

definition potential_prefix :: "string \<Rightarrow> string" where
  "potential_prefix cueNumber = filter (\<lambda>c. \<not> isdigit c \<and> c \<noteq> CHR ''.'') cueNumber"

definition get_prefix :: "attribute list \<Rightarrow> string \<Rightarrow> format_problem + cell" where
  "get_prefix attrs cueNumber =
     (let potentialPrefix = potential_prefix cueNumber;
          prefix = filter (\<lambda>p. p = Some potentialPrefix) (map attr_cue_prefix attrs)
      in if length prefix = 1 then Inr (hd prefix)
         else if cueNumber = ''last_row_storage'' then Inr None
         else Inl (cue_prefix_problem cueNumber))"

text \<open>
  \<open>dataframe.loc['last_row_storage'] = nan\<close> appends a row of missing values under
  that label, or blanks the rows that carry the label already.
\<close>

definition add_last_row_storage :: "raw_row list \<Rightarrow> raw_row list" where
  "add_last_row_storage rows =
     (if Some ''last_row_storage'' \<in> set (map fst rows)
      then map (\<lambda>(i, d). if i = Some ''last_row_storage'' then (i, no_data) else (i, d)) rows
      else rows @ [(Some ''last_row_storage'', no_data)])"

text \<open>\<open>shift()\<close> and \<open>shift(-1)\<close> move the columns by one row and leave the index in place.\<close>

definition shift_down :: "'a \<Rightarrow> 'a list \<Rightarrow> 'a list" where
  "shift_down missing xs = (if xs = [] then [] else missing # butlast xs)"

definition shift_up :: "'a \<Rightarrow> 'a list \<Rightarrow> 'a list" where
  "shift_up missing xs = (if xs = [] then [] else tl xs @ [missing])"

text \<open>The loop over \<open>indexValues\<close> that fills \<open>group_column\<close> and \<open>prefix_column\<close>.\<close>

fun group_prefix_loop ::
  "attribute list \<Rightarrow> cell list \<Rightarrow> int \<Rightarrow> int list \<Rightarrow> cell list \<Rightarrow> format_problem + (int list \<times> cell list)" where
  "group_prefix_loop attrs [] groupNum group_column prefix_column = Inr (group_column, prefix_column)"
| "group_prefix_loop attrs (None # indexValues) groupNum group_column prefix_column =
     group_prefix_loop attrs indexValues (groupNum + 1) (group_column @ [groupNum + 1]) (prefix_column @ [None])"
| "group_prefix_loop attrs (Some index # indexValues) groupNum group_column prefix_column =
     (case get_prefix attrs index of
        Inl e \<Rightarrow> Inl e
      | Inr p \<Rightarrow> group_prefix_loop attrs indexValues groupNum (group_column @ [groupNum]) (prefix_column @ [p]))"

text \<open>
  After \<open>reset_index\<close> the columns are addressed by name. \<open>named_cells\<close> gives a row
  as the value under Cue Number and the values under When, Action and Cue State.
\<close>

definition named_cells :: "string \<Rightarrow> raw_row \<Rightarrow> raw_row" where
  "named_cells index_name r =
     (case r of (i, (x, y, z)) \<Rightarrow>
        if index_name = ''Cue Number'' then (i, (x, y, z))
        else if index_name = ''When'' then (x, (i, y, z))
        else if index_name = ''Action'' then (x, (y, i, z))
        else (x, (y, z, i)))"

text \<open>
  The last \<open>dropna()\<close> keeps the rows without a missing value in the columns Cue
  Prefix, When, Action and Cue State. A row whose cue number is missing got a
  missing prefix in the loop, so it is among the dropped ones.
\<close>

fun complete_cue :: "int \<times> cell \<times> cell \<times> data_cells \<Rightarrow> cue option" where
  "complete_cue (g, Some n, Some p, (Some w, Some a, Some s)) =
     Some \<lparr>cue_group_number = g, cue_number = n, cue_prefix = p, cue_when = w,
           cue_action = a, cue_state = s\<rparr>"
| "complete_cue _ = None"

text \<open>
  The steps between the two checks of the column names. The first \<open>shift()\<close> moves
  the three columns beside the index; \<open>dropna(how='all')\<close> drops the rows whose four
  cells are all missing; the loop reads the column Cue Number; \<open>shift(-1)\<close> moves Cue
  Prefix, When, Action and Cue State, the group number and the cue number being the
  index by then.
\<close>

definition format_rows :: "attribute list \<Rightarrow> string \<Rightarrow> raw_row list \<Rightarrow> format_problem + cue list" where
  "format_rows attrs index_name rows =
     (let stored = add_last_row_storage rows;
          shifted = zip (map fst stored) (shift_down no_data (map snd stored));
          kept = map (named_cells index_name) (filter (\<lambda>(i, d). \<not> (i = None \<and> d = no_data)) shifted);
          indexValues = map fst kept
      in case group_prefix_loop attrs indexValues 0 [] [None] of
           Inl e \<Rightarrow> Inl e
         | Inr (group_column, prefix_column) \<Rightarrow>
             Inr (List.map_filter complete_cue
                    (zip group_column
                      (zip indexValues
                        (zip (shift_up None (butlast prefix_column))
                             (shift_up no_data (map snd kept)))))))"

text \<open>
  \<open>format_all_cues\<close>. A FormatCheckError of the body becomes a FormatError and
  nothing is stored. No function raises FormatCheckWarning, so the handler that
  stores the frame and raises FormatWarning is never entered; it has no counterpart
  here. On success the frame is stored, the maximum group is recomputed and
  \<open>warp_cue(0)\<close> is called, its result dropped.
\<close>

definition format_all_cues :: "raw_table \<Rightarrow> server_data \<Rightarrow> unit outcome" where
  "format_all_cues dataframe st =
     (case check_columns_names (raw_index_name dataframe # raw_column_names dataframe)
             [''Cue Number'', ''When'', ''Action'', ''Cue State''] of
        Inl problem \<Rightarrow> (Inl (FormatError ''all cues'' problem), st)
      | Inr u \<Rightarrow>
          (case format_rows (attributes st) (raw_index_name dataframe) (raw_rows dataframe) of
             Inl problem \<Rightarrow> (Inl (FormatError ''all cues'' problem), st)
           | Inr cues \<Rightarrow>
               (case check_columns_names
                       ([''Cue Group Number'', raw_index_name dataframe, ''Cue Prefix''] @ raw_column_names dataframe)
                       [''Cue Group Number'', ''Cue Number'', ''Cue Prefix'', ''When'', ''Action'', ''Cue State''] of
                  Inl problem \<Rightarrow> (Inl (FormatError ''all cues'' problem), st)
                | Inr u \<Rightarrow>
                    (if \<exists>c \<in> set cues. cue_state c \<notin> set (map state_name (states st))
                     then (Inl (FormatError ''all cues'' cue_states_problem), st)
                     else (case warp_cue 0 (update_max_cue_group (st\<lparr>allCues := cues\<rparr>)) of
                             (Inl e, st') \<Rightarrow> (Inl e, st')
                           | (Inr b, st') \<Rightarrow> (Inr (), st'))))))"

section \<open>The formatter as a single forward pass\<close>

text \<open>
  What the specification asks of the compiler: rows are partitioned into runs
  separated by blank rows, and the runs are numbered 0, 1, 2, ... in source order.
  \<open>direct_pass\<close> is that forward scan. It keeps the current group number and whether
  the row before was a cue row; a row that is not a complete cue row ends the run.
\<close>

definition blank_row :: raw_row where
  "blank_row = (None, no_data)"

fun direct_pass :: "int \<Rightarrow> bool \<Rightarrow> raw_row list \<Rightarrow> cue list" where
  "direct_pass g after_cue [] = []"
| "direct_pass g after_cue ((Some n, (Some w, Some a, Some s)) # rows) =
     \<lparr>cue_group_number = g, cue_number = n, cue_prefix = potential_prefix n, cue_when = w,
      cue_action = a, cue_state = s\<rparr> # direct_pass g True rows"
| "direct_pass g after_cue (r # rows) = direct_pass (if after_cue then g + 1 else g) False rows"

text \<open>
  A valid row of the raw sheet is blank, or it has a cue number, When, Action and
  Cue State, its prefix is the prefix of exactly one attribute and its cue state is
  in the states sheet. The label \<open>last_row_storage\<close> is the formatter's own.
\<close>

definition resolves :: "attribute list \<Rightarrow> string \<Rightarrow> bool" where
  "resolves attrs n =
     (length (filter (\<lambda>p. p = Some (potential_prefix n)) (map attr_cue_prefix attrs)) = 1)"

fun valid_row :: "attribute list \<Rightarrow> string list \<Rightarrow> raw_row \<Rightarrow> bool" where
  "valid_row attrs names (None, d) = (d = no_data)"
| "valid_row attrs names (Some n, (Some w, Some a, Some s)) =
     (n \<noteq> ''last_row_storage'' \<and> resolves attrs n \<and> s \<in> set names)"
| "valid_row attrs names r = False"

text \<open>
  Intermediate views of \<open>format_rows\<close> used in the proofs: the rows that survive
  \<open>dropna(how='all')\<close>, each with the data shifted onto it; the group column; the
  first prefix error of the loop; and the rows that the final \<open>dropna\<close> lets through.
\<close>

fun kept_rows :: "data_cells \<Rightarrow> raw_row list \<Rightarrow> raw_row list" where
  "kept_rows prev [] = [(Some ''last_row_storage'', prev)]"
| "kept_rows prev ((i, d) # rows) =
     (if i = None \<and> prev = no_data then kept_rows d rows else (i, prev) # kept_rows d rows)"

fun groups_from :: "int \<Rightarrow> cell list \<Rightarrow> int list" where
  "groups_from g [] = []"
| "groups_from g (None # is) = (g + 1) # groups_from (g + 1) is"
| "groups_from g (Some n # is) = g # groups_from g is"

fun first_problem :: "attribute list \<Rightarrow> cell list \<Rightarrow> format_problem option" where
  "first_problem attrs [] = None"
| "first_problem attrs (None # is) = first_problem attrs is"
| "first_problem attrs (Some n # is) =
     (case get_prefix attrs n of Inl e \<Rightarrow> Some e | Inr p \<Rightarrow> first_problem attrs is)"

definition prefix_of :: "attribute list \<Rightarrow> string \<Rightarrow> cell" where
  "prefix_of attrs n = (case get_prefix attrs n of Inl e \<Rightarrow> None | Inr p \<Rightarrow> p)"

fun emitted :: "(string \<Rightarrow> cell) \<Rightarrow> int \<Rightarrow> raw_row list \<Rightarrow> cue list" where
  "emitted pf g [] = []"
| "emitted pf g [x] = []"
| "emitted pf g ((i, d) # (j, d') # rest) =
     (let g' = (case i of None \<Rightarrow> g + 1 | Some n \<Rightarrow> g)
      in (case complete_cue (g', i, case_option None pf i, d') of None \<Rightarrow> [] | Some c \<Rightarrow> [c])
         @ emitted pf g' ((j, d') # rest))"

definition row_ok :: "(string \<Rightarrow> cell) \<Rightarrow> raw_row \<Rightarrow> bool" where
  "row_ok pf r = (r = blank_row \<or>
     (\<exists>n w a s. r = (Some n, (Some w, Some a, Some s)) \<and> pf n = Some (potential_prefix n)))"

text \<open>
  The specification's reading of "the raw table is persisted": every cue number of
  the operator's sheet is found in the stored all-cues frame.
\<close>

definition rows_stored :: "raw_row list \<Rightarrow> server_data \<Rightarrow> bool" where
  "rows_stored rows st =
     list_all (\<lambda>r. case fst r of None \<Rightarrow> True | Some n \<Rightarrow> n \<in> set (map cue_number (allCues st))) rows"

section \<open>Example data\<close>

definition example_attributes :: "attribute list" where
  "example_attributes =
     [\<lparr>mac_address = Some ''02:00:00:00:00:01'', node_number = Some ''1'',
       node_name = Some ''Lamp'', attr_cue_prefix = Some ''A''\<rparr>]"

definition example_states :: "state_row list" where
  "example_states =
     [\<lparr>state_name = ''Go'', initial_node_state = Some ''Off'', final_node_state = Some ''On''\<rparr>]"

definition cue_row :: "string \<Rightarrow> raw_row" where
  "cue_row n = (Some n, (Some ''0:05'', Some ''Fade in'', Some ''Go''))"

definition example_cue :: "int \<Rightarrow> string \<Rightarrow> cue" where
  "example_cue g n = \<lparr>cue_group_number = g, cue_number = n, cue_prefix = ''A'',
     cue_when = ''0:05'', cue_action = ''Fade in'', cue_state = ''Go''\<rparr>"

definition reported_row :: "string \<Rightarrow> node_row" where
  "reported_row n = \<lparr>node_cue_number = n, node_when = Some ''0:05'', node_action = Some ''Fade in'',
     node_cue_state = Some ''Go'', node_node_number = Some ''1'', node_node_state = Some ''On'',
     node_timestamp = Some 0, node_last_updated = Some ''3 min''\<rparr>"


text \<open>A node series for the cue \<open>A0\<close>, and a nodes frame in which two rows carry that cue number.\<close>

definition known_series :: node_series where
  "known_series = \<lparr>ser_cue_number = ''A0'', ser_when = Some ''0:05'', ser_action = Some ''Fade in'',
     ser_cue_state = Some ''Go'', ser_node_number = Some ''1'', ser_node_state = Some ''Off'',
     ser_timestamp = Some 30000000\<rparr>"

definition twin_rows :: "node_row list" where
  "twin_rows = [reported_row ''A0'', reported_row ''A0'']"

text \<open>A server that shows group 0 of a one-cue show and has a report from its node.\<close>

definition start_data :: server_data where
  "start_data = \<lparr>attributes = example_attributes, allCues = [example_cue 0 ''A0''],
     states = example_states, currentCues = [to_current (example_cue 0 ''A0'')],
     nodes = \<lparr>nf_rows = [reported_row ''A0''], nf_has_last_updated = True\<rparr>,
     cueNum = Some 0, maxCueGroup = Some 0\<rparr>"

text \<open>A server in group 1 of a show with the groups 0, 1 and 2.\<close>

definition three_group_data :: server_data where
  "three_group_data = \<lparr>attributes = example_attributes,
     allCues = [example_cue 0 ''A1'', example_cue 1 ''A2'', example_cue 2 ''A3''],
     states = example_states, currentCues = [to_current (example_cue 1 ''A2'')],
     nodes = \<lparr>nf_rows = [reported_row ''A2''], nf_has_last_updated = True\<rparr>,
     cueNum = Some 1, maxCueGroup = Some 2\<rparr>"

definition cue_sheet :: "raw_row list \<Rightarrow> raw_table" where
  "cue_sheet rows = \<lparr>raw_index_name = ''Cue Number'',
     raw_column_names = [''When'', ''Action'', ''Cue State''], raw_rows = rows\<rparr>"

text \<open>Two cue rows and a trailing blank row.\<close>

definition scenario_table :: raw_table where
  "scenario_table = cue_sheet [cue_row ''A1'', cue_row ''A2'', blank_row]"

text \<open>Three runs; the only row of the second run has an empty When cell.\<close>

definition gap_table :: raw_table where
  "gap_table = cue_sheet
     [cue_row ''A1'', blank_row, (Some ''A2'', (None, Some ''Fade out'', Some ''Go'')),
      blank_row, cue_row ''A3'']"

text \<open>Two runs; the only row of the first run has an empty When cell.\<close>

definition headless_table :: raw_table where
  "headless_table = cue_sheet
     [(Some ''A1'', (None, Some ''Fade out'', Some ''Go'')), blank_row, cue_row ''A2'']"

text \<open>
  A sheet whose first column is When, so that When is the index and Cue Number a
  column beside it; and the same sheet with a blank row at the end.
\<close>

definition when_indexed_rows :: "raw_row list" where
  "when_indexed_rows =
     [(Some ''0:05'', (Some ''A1'', Some ''Fade in'', Some ''Go'')),
      (Some ''0:10'', (Some ''A2'', Some ''Fade out'', Some ''Go''))]"

definition when_indexed_table :: "raw_row list \<Rightarrow> raw_table" where
  "when_indexed_table rows = \<lparr>raw_index_name = ''When'',
     raw_column_names = [''Cue Number'', ''Action'', ''Cue State''], raw_rows = rows\<rparr>"

text \<open>A sheet with one row, all of whose cells are empty.\<close>

definition blank_table :: raw_table where
  "blank_table = cue_sheet [blank_row]"

text \<open>A sheet whose cue state is not in the states sheet.\<close>

definition unknown_state_table :: raw_table where
  "unknown_state_table = cue_sheet [(Some ''A7'', (Some ''0:05'', Some ''Fade in'', Some ''Stop''))]"

text \<open>
  A loader for the examples. It agrees with \<open>pickle.loads\<close> on the inputs the
  examples use: the protocol 0 integer pickle of 5 (\<open>I\<close>, decimal digits, newline, full
  stop); input that starts with \<open>?\<close>, which is no pickle opcode and makes \<open>loads\<close>
  raise UnpicklingError; and \<open>I\<close> followed by a line that starts with a letter, on
  which \<open>loads\<close> raises ValueError (could not convert string to int).
\<close>

definition decimal :: "char \<Rightarrow> bool" where
  "decimal c = (c \<in> set ''0123456789'')"

definition digit_value :: "string \<Rightarrow> int" where
  "digit_value ds = foldl (\<lambda>acc c. 10 * acc + (of_char c - 48)) 0 ds"

definition loads_example :: "bytes \<Rightarrow> int load_outcome" where
  "loads_example b =
     (case b of
        [] \<Rightarrow> Other_Error
      | c # r \<Rightarrow>
          (if c = CHR ''I'' \<and> takeWhile decimal r \<noteq> [] \<and>
              take 2 (dropWhile decimal r) = [CHR 0x0A, CHR ''.'']
           then Loaded (digit_value (takeWhile decimal r))
           else if c = CHR ''?'' then Unpickling_Error
           else Other_Error))"

text \<open>
  What \<open>alfred -r\<close> prints for two nodes: one line per node with the MAC address
  and the data, unprintable bytes written as \<open>\x..\<close>. The first node sent the pickle of
  5, the second the bytes \<open>?.\<close>; \<open>single_response\<close> has the first line only.
\<close>

definition response_line :: "string \<Rightarrow> bytes \<Rightarrow> bytes" where
  "response_line mac payload =
     ''{ '' @ [CHR 0x22] @ mac @ [CHR 0x22] @ '', '' @ [CHR 0x22] @ payload @ [CHR 0x22] @ '' },'' @ [CHR 0x0A]"

definition pickled_five :: bytes where
  "pickled_five = ''I5'' @ [CHR 0x5C] @ ''x0a.''"

definition mixed_response :: bytes where
  "mixed_response = response_line ''02:01'' pickled_five @ response_line ''02:02'' ''?.''"

definition single_response :: bytes where
  "single_response = response_line ''02:01'' pickled_five"

text \<open>
  Answers with a record on which \<open>loads\<close> raises ValueError, before and after a
  record on which it raises UnpicklingError.
\<close>

definition malformed_int :: bytes where
  "malformed_int = ''Ix'' @ [CHR 0x5C] @ ''x0a.''"

definition value_error_first_response :: bytes where
  "value_error_first_response = response_line ''02:03'' malformed_int @ response_line ''02:02'' ''?.''"

definition unpickling_first_response :: bytes where
  "unpickling_first_response = response_line ''02:02'' ''?.'' @ response_line ''02:03'' malformed_int"

section \<open>Properties of the navigation\<close>


lemma format_current_cues_frame:
  "cueNum (snd (format_current_cues st)) = cueNum st"
  "maxCueGroup (snd (format_current_cues st)) = maxCueGroup st"
  "allCues (snd (format_current_cues st)) = allCues st"
  "attributes (snd (format_current_cues st)) = attributes st"
  "states (snd (format_current_cues st)) = states st"
  by (simp_all add: format_current_cues_def reset_nodes_def split: option.split)

lemma next_cue_pointer:
  "cueNum st = Some c \<Longrightarrow>
   cueNum (snd (next_cue st)) = Some (if maxCueGroup st = Some c then 0 else c + 1)"
  by (simp add: next_cue_def format_current_cues_frame)

lemma next_cue_max: "maxCueGroup (snd (next_cue st)) = maxCueGroup st"
  by (simp add: next_cue_def format_current_cues_frame split: option.split)

lemma previous_cue_pointer:
  "cueNum st = Some c \<Longrightarrow>
   cueNum (snd (previous_cue st)) = (if c = 0 then maxCueGroup st else Some (c - 1))"
  by (simp add: previous_cue_def format_current_cues_frame)

lemma previous_cue_max: "maxCueGroup (snd (previous_cue st)) = maxCueGroup st"
  by (simp add: previous_cue_def format_current_cues_frame)

lemma next_iter:
  assumes "maxCueGroup st = Some m" "cueNum st = Some c" "0 \<le> c" "c \<le> m"
  shows "cueNum ((after next_cue ^^ k) st) = Some ((c + int k) mod (m + 1))
       \<and> maxCueGroup ((after next_cue ^^ k) st) = Some m"
proof (induction k)
  case 0
  then show ?case using assms by simp
next
  case (Suc k)
  let ?s = "(after next_cue ^^ k) st"
  let ?p = "(c + int k) mod (m + 1)"
  have p: "cueNum ?s = Some ?p" and mx: "maxCueGroup ?s = Some m" using Suc by simp_all
  have mpos: "0 < m + 1" using assms by simp
  have rng: "0 \<le> ?p" "?p \<le> m"
    using pos_mod_sign[OF mpos, of "c + int k"] pos_mod_bound[OF mpos, of "c + int k"] by simp_all
  have step: "(if ?p = m then 0 else ?p + 1) = (c + int (Suc k)) mod (m + 1)"
  proof (cases "?p = m")
    case True
    have "(c + int (Suc k)) mod (m + 1) = (?p + 1) mod (m + 1)"
      by (simp add: mod_simps algebra_simps)
    then show ?thesis using True by simp
  next
    case False
    then have lt: "?p + 1 < m + 1" using rng by simp
    have "(c + int (Suc k)) mod (m + 1) = (?p + 1) mod (m + 1)"
      by (simp add: mod_simps algebra_simps)
    also have "\<dots> = ?p + 1" using lt rng by simp
    finally show ?thesis using False by simp
  qed
  have S: "(after next_cue ^^ Suc k) st = snd (next_cue ?s)"
    by (simp only: funpow.simps o_apply) (rule after_def)
  have "cueNum (snd (next_cue ?s)) = Some ((c + int (Suc k)) mod (m + 1))"
    using next_cue_pointer[OF p] mx step by (auto split: if_splits)
  moreover have "maxCueGroup (snd (next_cue ?s)) = Some m"
    using mx by (simp only: next_cue_max)
  ultimately show ?case by (simp only: S)
qed


lemma prev_iter:
  assumes "maxCueGroup st = Some m" "cueNum st = Some c" "0 \<le> c" "c \<le> m"
  shows "cueNum ((after previous_cue ^^ k) st) = Some ((c - int k) mod (m + 1))
       \<and> maxCueGroup ((after previous_cue ^^ k) st) = Some m"
proof (induction k)
  case 0
  then show ?case using assms by simp
next
  case (Suc k)
  let ?s = "(after previous_cue ^^ k) st"
  let ?p = "(c - int k) mod (m + 1)"
  have p: "cueNum ?s = Some ?p" and mx: "maxCueGroup ?s = Some m" using Suc by simp_all
  have mpos: "0 < m + 1" using assms by simp
  have rng: "0 \<le> ?p" "?p \<le> m"
    using pos_mod_sign[OF mpos, of "c - int k"] pos_mod_bound[OF mpos, of "c - int k"] by simp_all
  have eq: "(c - int (Suc k)) mod (m + 1) = (?p - 1) mod (m + 1)"
    by (simp add: mod_simps algebra_simps)
  have step: "(if ?p = 0 then Some m else Some (?p - 1)) = Some ((c - int (Suc k)) mod (m + 1))"
  proof (cases "?p = 0")
    case True
    have "(0 - 1) mod (m + 1) = m" using assms by (simp add: zmod_minus1)
    then show ?thesis using True eq by simp
  next
    case False
    then have "0 \<le> ?p - 1" "?p - 1 < m + 1" using rng by simp_all
    then have "(?p - 1) mod (m + 1) = ?p - 1" by simp
    then show ?thesis using False eq by simp
  qed
  have S: "(after previous_cue ^^ Suc k) st = snd (previous_cue ?s)"
    by (simp only: funpow.simps o_apply) (rule after_def)
  have "cueNum (snd (previous_cue ?s)) = Some ((c - int (Suc k)) mod (m + 1))"
    using previous_cue_pointer[OF p] mx step by (auto split: if_splits)
  moreover have "maxCueGroup (snd (previous_cue ?s)) = Some m"
    using mx by (simp only: previous_cue_max)
  ultimately show ?case by (simp only: S)
qed


lemma format_current_cues_returns:
  "cueNum st = Some g \<Longrightarrow> group_rows g (allCues st) \<noteq> [] \<Longrightarrow>
   format_current_cues st =
     (Inr (), reset_nodes (st\<lparr>currentCues := map to_current (group_rows g (allCues st))\<rparr>))"
  by (simp add: format_current_cues_def)

lemma next_cue_returns:
  assumes "maxCueGroup st = Some m" "cueNum st = Some c" "0 \<le> c" "c \<le> m" "groups_present m st"
  shows "fst (next_cue st) = Inr ()"
proof -
  have a: "group_rows 0 (allCues st) \<noteq> []" using assms by (simp add: groups_present_def)
  have b: "c \<noteq> m \<Longrightarrow> group_rows (c + 1) (allCues st) \<noteq> []"
    using assms by (simp add: groups_present_def)
  show ?thesis
  proof (cases "c = m")
    case True
    then show ?thesis using assms(1,2) a by (simp add: next_cue_def format_current_cues_def)
  next
    case False
    then show ?thesis using assms(1,2) b by (simp add: next_cue_def format_current_cues_def)
  qed
qed

lemma previous_cue_returns:
  assumes "maxCueGroup st = Some m" "cueNum st = Some c" "0 \<le> c" "c \<le> m" "groups_present m st"
  shows "fst (previous_cue st) = Inr ()"
proof -
  have a: "group_rows m (allCues st) \<noteq> []" using assms by (simp add: groups_present_def)
  have b: "c \<noteq> 0 \<Longrightarrow> group_rows (c - 1) (allCues st) \<noteq> []"
    using assms by (simp add: groups_present_def)
  show ?thesis
  proof (cases "c = 0")
    case True
    then show ?thesis using assms(1,2) a by (simp add: previous_cue_def format_current_cues_def)
  next
    case False
    then show ?thesis using assms(1,2) b by (simp add: previous_cue_def format_current_cues_def)
  qed
qed

lemma after_allCues:
  "allCues (after next_cue st) = allCues st" "allCues (after previous_cue st) = allCues st"
  by (simp_all add: after_def next_cue_def previous_cue_def format_current_cues_frame split: option.split)

lemma repeat_next:
  assumes "maxCueGroup st = Some m" "cueNum st = Some c" "0 \<le> c" "c \<le> m" "groups_present m st"
  shows "repeat_call k next_cue st = (Inr (), (after next_cue ^^ k) st)"
  using assms
proof (induction k arbitrary: st c)
  case 0
  then show ?case by simp
next
  case (Suc k)
  let ?s = "after next_cue st"
  let ?c' = "if c = m then 0 else c + 1"
  have r: "next_cue st = (Inr (), ?s)"
    using next_cue_returns[OF Suc.prems] by (simp add: after_def prod_eq_iff)
  have p: "cueNum ?s = Some ?c'" using next_cue_pointer[OF Suc.prems(2)] Suc.prems(1)
    by (auto simp: after_def)
  have mx: "maxCueGroup ?s = Some m" using Suc.prems(1) by (simp add: after_def next_cue_max)
  have gp: "groups_present m ?s" using Suc.prems(5) by (simp add: groups_present_def after_allCues)
  have rng: "0 \<le> ?c'" "?c' \<le> m" using Suc.prems by auto
  have "repeat_call k next_cue ?s = (Inr (), (after next_cue ^^ k) ?s)"
    by (rule Suc.IH[OF mx p rng gp])
  then show ?case using r by (simp add: funpow_swap1)
qed

lemma repeat_previous:
  assumes "maxCueGroup st = Some m" "cueNum st = Some c" "0 \<le> c" "c \<le> m" "groups_present m st"
  shows "repeat_call k previous_cue st = (Inr (), (after previous_cue ^^ k) st)"
  using assms
proof (induction k arbitrary: st c)
  case 0
  then show ?case by simp
next
  case (Suc k)
  let ?s = "after previous_cue st"
  let ?c' = "if c = 0 then m else c - 1"
  have r: "previous_cue st = (Inr (), ?s)"
    using previous_cue_returns[OF Suc.prems] by (simp add: after_def prod_eq_iff)
  have p: "cueNum ?s = Some ?c'" using previous_cue_pointer[OF Suc.prems(2)] Suc.prems(1)
    by (auto simp: after_def)
  have mx: "maxCueGroup ?s = Some m" using Suc.prems(1) by (simp add: after_def previous_cue_max)
  have gp: "groups_present m ?s" using Suc.prems(5) by (simp add: groups_present_def after_allCues)
  have rng: "0 \<le> ?c'" "?c' \<le> m" using Suc.prems by auto
  have "repeat_call k previous_cue ?s = (Inr (), (after previous_cue ^^ k) ?s)"
    by (rule Suc.IH[OF mx p rng gp])
  then show ?case using r by (simp add: funpow_swap1)
qed

text \<open>
  Claim C7. From a current group number between 0 and \<open>maxCueGroup\<close>, \<open>maxCueGroup + 1\<close>
  calls of \<open>next_cue\<close> bring the group number back to where it started, and so do
  \<open>maxCueGroup + 1\<close> calls of \<open>previous_cue\<close>; one call of \<open>next_cue\<close> maps the maximum
  to 0 and adds one otherwise, one call of \<open>previous_cue\<close> maps 0 to the maximum and
  subtracts one otherwise. The group number is read in the state each call leaves
  behind; when every group from 0 to the maximum is in the all-cues frame, none of
  the calls raises.
\<close>

theorem next_previous_wraparound:
  assumes "maxCueGroup st = Some m" and "cueNum st = Some c" and "0 \<le> c" and "c \<le> m"
  shows "cueNum ((after next_cue ^^ (nat m + 1)) st) = Some c
       \<and> cueNum ((after previous_cue ^^ (nat m + 1)) st) = Some c
       \<and> cueNum (after next_cue st) = Some (if c = m then 0 else c + 1)
       \<and> cueNum (after previous_cue st) = Some (if c = 0 then m else c - 1)
       \<and> (groups_present m st \<longrightarrow>
            repeat_call (nat m + 1) next_cue st = (Inr (), (after next_cue ^^ (nat m + 1)) st)
          \<and> repeat_call (nat m + 1) previous_cue st = (Inr (), (after previous_cue ^^ (nat m + 1)) st))"
proof -
  have k: "int (nat m + 1) = m + 1" using assms by simp
  have small: "c mod (m + 1) = c" using assms by simp
  have "(c + (m + 1)) mod (m + 1) = c mod (m + 1)" by (simp only: mod_add_self2)
  then have e1: "(c + int (nat m + 1)) mod (m + 1) = c" using small k by (simp only:)
  have "(c - (m + 1)) mod (m + 1) = c mod (m + 1)" by (rule minus_mod_self2)
  then have e2: "(c - int (nat m + 1)) mod (m + 1) = c" using small k by (simp only:)
  have a: "cueNum ((after next_cue ^^ (nat m + 1)) st) = Some c"
    using next_iter[OF assms, of "nat m + 1"] e1 by (simp only:)
  have b: "cueNum ((after previous_cue ^^ (nat m + 1)) st) = Some c"
    using prev_iter[OF assms, of "nat m + 1"] e2 by (simp only:)
  have c: "cueNum (after next_cue st) = Some (if c = m then 0 else c + 1)"
    using next_cue_pointer[OF assms(2)] assms(1) by (auto simp: after_def)
  have d: "cueNum (after previous_cue st) = Some (if c = 0 then m else c - 1)"
    using previous_cue_pointer[OF assms(2)] assms(1) by (auto simp: after_def)
  show ?thesis
    using a b c d repeat_next[OF assms] repeat_previous[OF assms] by blast
qed

theorem next_previous_wraparound_witness:
  "maxCueGroup three_group_data = Some 2 \<and> cueNum three_group_data = Some 1
   \<and> cueNum ((after next_cue ^^ (nat 2 + 1)) three_group_data) = Some 1
   \<and> cueNum ((after previous_cue ^^ (nat 2 + 1)) three_group_data) = Some 1
   \<and> groups_present 2 three_group_data
   \<and> repeat_call (nat 2 + 1) next_cue three_group_data
       = (Inr (), (after next_cue ^^ (nat 2 + 1)) three_group_data)"
proof -
  have m: "maxCueGroup three_group_data = Some 2" and c: "cueNum three_group_data = Some 1"
    by (simp_all add: three_group_data_def)
  have g: "groups_present 2 three_group_data"
  proof -
    have "\<And>g::int. 0 \<le> g \<and> g \<le> 2 \<Longrightarrow> g = 0 \<or> g = 1 \<or> g = 2" by auto
    then show ?thesis
      by (auto simp: groups_present_def three_group_data_def group_rows_def example_cue_def)
  qed
  from next_previous_wraparound[OF m c] g m c show ?thesis by simp
qed

text \<open>
  Claim C6 at a concrete input. Formatting \<open>gap_table\<close> succeeds and leaves the
  groups 0 and 2 with \<open>maxCueGroup = 2\<close>. Group number 1 is within \<open>0..maxCueGroup\<close>,
  yet \<open>warp_cue 1\<close> neither returns True nor returns False: the lookup of group 1
  raises KeyError after the current group number has been set to 1, while the
  current cues and the nodes frame still show group 0.
\<close>

theorem warp_cue_gap_raises:
  "fst (format_all_cues gap_table start_data) = Inr ()
   \<and> maxCueGroup (snd (format_all_cues gap_table start_data)) = Some 2
   \<and> (0::int) \<le> 1 \<and> (1::int) \<le> 2
   \<and> fst (warp_cue 1 (snd (format_all_cues gap_table start_data))) = Inl KeyError
   \<and> cueNum (snd (warp_cue 1 (snd (format_all_cues gap_table start_data)))) = Some 1
   \<and> map cur_number (currentCues (snd (warp_cue 1 (snd (format_all_cues gap_table start_data))))) = [''A1'']"
  by code_simp

text \<open>
  When the group asked for has a cue, \<open>warp_cue\<close> does what its comments say: within
  \<open>0..maxCueGroup\<close> it sets the current group number, recomputes the current cues and
  the empty node table and returns True; outside (also when \<open>maxCueGroup\<close> is \<open>nan\<close>)
  it returns False and leaves the whole state unchanged.
\<close>

lemma warp_cue_range:
  "(0 \<le> n \<and> maxCueGroup st = Some m \<and> n \<le> m \<and> group_rows n (allCues st) \<noteq> [] \<longrightarrow>
      warp_cue n st =
        (Inr True, st\<lparr>cueNum := Some n,
                       currentCues := map to_current (group_rows n (allCues st)),
                       nodes := \<lparr>nf_rows = map (node_shell \<circ> to_current) (group_rows n (allCues st)),
                                 nf_has_last_updated = False\<rparr>\<rparr>))
   \<and> (n < 0 \<or> maxCueGroup st = None \<or> (\<exists>m. maxCueGroup st = Some m \<and> m < n) \<longrightarrow>
      warp_cue n st = (Inr False, st))"
  by (auto simp: warp_cue_def format_current_cues_def reset_nodes_def)

text \<open>
  Claim C10, as stated, at a concrete input. A sheet whose only row is blank is
  formatted without error; it leaves an empty all-cues frame, \<open>maxCueGroup = nan\<close> and
  the current group number 0 with the nodes frame as it was. \<open>warp_cue 0\<close>, a warp to
  the current group, then returns False and the node report is still there.
\<close>

theorem warp_to_current_group_counterexample:
  "fst (format_all_cues blank_table start_data) = Inr ()
   \<and> cueNum (snd (format_all_cues blank_table start_data)) = Some 0
   \<and> maxCueGroup (snd (format_all_cues blank_table start_data)) = None
   \<and> fst (warp_cue 0 (snd (format_all_cues blank_table start_data))) = Inr False
   \<and> fst (warp_cue 0 (snd (format_all_cues blank_table start_data))) \<noteq> Inr True
   \<and> map node_node_state
         (nf_rows (nodes (snd (warp_cue 0 (snd (format_all_cues blank_table start_data)))))) = [Some ''On'']"
  by code_simp

text \<open>
  Claim C10, amended. Let \<open>n\<close> be the current group number. When \<open>n\<close> is within
  \<open>0..maxCueGroup\<close> and the all-cues frame has a cue of group \<open>n\<close>, \<open>warp_cue n\<close> returns
  True, recomputes the current cues and replaces the nodes frame by the empty shell
  of the group: one row per cue of the group with its cue number, When, Action and
  Cue State, and every node field of every row missing, whatever had been reported
  before. When \<open>n\<close> is outside \<open>0..maxCueGroup\<close>, in particular when
  the all-cues frame is empty and \<open>maxCueGroup\<close> is \<open>nan\<close>, \<open>warp_cue n\<close> returns False
  and the state, node reports included, stays as it is.
\<close>

theorem warp_to_current_group_resets:
  assumes "cueNum st = Some n"
  shows "(0 \<le> n \<and> maxCueGroup st = Some m \<and> n \<le> m \<and> group_rows n (allCues st) \<noteq> [] \<longrightarrow>
          (\<exists>st'. warp_cue n st = (Inr True, st')
             \<and> cueNum st' = Some n
             \<and> currentCues st' = map to_current (group_rows n (allCues st))
             \<and> map cur_number (currentCues st') = map cue_number (group_rows n (allCues st))
             \<and> map cur_prefix (currentCues st') = map cue_prefix (group_rows n (allCues st))
             \<and> map cur_when (currentCues st') = map cue_when (group_rows n (allCues st))
             \<and> map cur_action (currentCues st') = map cue_action (group_rows n (allCues st))
             \<and> map cur_state (currentCues st') = map cue_state (group_rows n (allCues st))
             \<and> nodes st' = \<lparr>nf_rows = map node_shell (currentCues st'), nf_has_last_updated = False\<rparr>
             \<and> map node_cue_number (nf_rows (nodes st')) = map cue_number (group_rows n (allCues st))
             \<and> map node_when (nf_rows (nodes st')) = map (\<lambda>c. Some (cue_when c)) (group_rows n (allCues st))
             \<and> map node_action (nf_rows (nodes st')) = map (\<lambda>c. Some (cue_action c)) (group_rows n (allCues st))
             \<and> map node_cue_state (nf_rows (nodes st')) = map (\<lambda>c. Some (cue_state c)) (group_rows n (allCues st))
             \<and> (\<forall>r \<in> set (nf_rows (nodes st')).
                   node_node_number r = None \<and> node_node_state r = None \<and> node_timestamp r = None
                   \<and> node_last_updated r = None)
             \<and> allCues st' = allCues st \<and> maxCueGroup st' = maxCueGroup st))
       \<and> (n < 0 \<or> maxCueGroup st = None \<or> (\<exists>m'. maxCueGroup st = Some m' \<and> m' < n) \<longrightarrow>
            warp_cue n st = (Inr False, st))"
  using assms
  by (auto simp: warp_cue_def format_current_cues_def reset_nodes_def node_shell_def to_current_def o_def)

theorem warp_to_current_group_resets_witness:
  "cueNum start_data = Some 0 \<and> maxCueGroup start_data = Some 0
   \<and> group_rows 0 (allCues start_data) \<noteq> []
   \<and> map node_node_state (nf_rows (nodes start_data)) = [Some ''On'']
   \<and> fst (warp_cue 0 start_data) = Inr True
   \<and> map node_node_state (nf_rows (nodes (snd (warp_cue 0 start_data)))) = [None]
   \<and> cueNum (start_data\<lparr>allCues := [], maxCueGroup := None\<rparr>) = Some 0
   \<and> warp_cue 0 (start_data\<lparr>allCues := [], maxCueGroup := None\<rparr>)
        = (Inr False, start_data\<lparr>allCues := [], maxCueGroup := None\<rparr>)"
proof -
  have a: "cueNum start_data = Some 0" and b: "maxCueGroup start_data = Some 0"
    and c: "group_rows 0 (allCues start_data) \<noteq> []"
    and d: "map node_node_state (nf_rows (nodes start_data)) = [Some ''On'']"
    by (simp_all add: start_data_def group_rows_def example_cue_def reported_row_def)
  from warp_to_current_group_resets[OF a, of 0] b c
  obtain st' where w: "warp_cue 0 start_data = (Inr True, st')"
    and cc: "currentCues st' = map to_current (group_rows 0 (allCues start_data))"
    and n: "nodes st' = \<lparr>nf_rows = map node_shell (currentCues st'), nf_has_last_updated = False\<rparr>"
    by auto
  have e: "map node_node_state (nf_rows (nodes st')) = [None]"
    unfolding n cc by (simp add: start_data_def group_rows_def example_cue_def node_shell_def)
  let ?s = "start_data\<lparr>allCues := [], maxCueGroup := None\<rparr>"
  have a': "cueNum ?s = Some 0" using a by simp
  have b': "maxCueGroup ?s = None" by simp
  from warp_to_current_group_resets[OF a', of 0] b'
  have f: "warp_cue 0 ?s = (Inr False, ?s)" by blast
  show ?thesis using a b c d w e a' f by simp
qed

section \<open>Properties of the node status table\<close>








lemma series_map_Inr: "series_map f xs = Inr ys \<longleftrightarrow> map f xs = map Inr ys"
proof (induction xs arbitrary: ys)
  case Nil
  then show ?case by auto
next
  case (Cons x xs)
  show ?case
  proof (cases "f x")
    case (Inl e)
    then show ?thesis by auto
  next
    case fx: (Inr y)
    show ?thesis
    proof (cases "series_map f xs")
      case (Inl e)
      have "map f xs \<noteq> map Inr zs" for zs using Cons.IH[of zs] Inl by simp
      then show ?thesis using fx Inl by (auto simp: map_eq_Cons_conv)
    next
      case (Inr zs)
      then have "map f xs = map Inr zs" using Cons.IH[of zs] by simp
      then show ?thesis using fx Inr by (auto simp: inj_map_eq_map)
    qed
  qed
qed

lemma series_map_Inl: "series_map f xs = Inl e \<Longrightarrow> \<exists>x \<in> set xs. f x = Inl e"
  by (induction xs) (auto split: sum.splits)

lemma format_timestamp_Inl:
  "format_timestamp now ts = Inl e \<longleftrightarrow>
     e = OutOfBoundsDatetime \<and> (\<exists>t. ts = Some t \<and> \<not> timedelta_fits (now - t))"
  by (auto simp: format_timestamp_def Let_def split: option.splits if_splits)

lemma refreshed_rows:
  assumes "length column = length rows"
  shows "map (\<lambda>r. r\<lparr>node_last_updated := None\<rparr>)
           (map (\<lambda>(r, v). r\<lparr>node_last_updated := v\<rparr>) (zip rows column))
         = map (\<lambda>r. r\<lparr>node_last_updated := None\<rparr>) rows"
    and "map node_last_updated (map (\<lambda>(r, v). r\<lparr>node_last_updated := v\<rparr>) (zip rows column)) = column"
    and "map node_timestamp (map (\<lambda>(r, v). r\<lparr>node_last_updated := v\<rparr>) (zip rows column))
         = map node_timestamp rows"
    and "map node_cue_number (map (\<lambda>(r, v). r\<lparr>node_last_updated := v\<rparr>) (zip rows column))
         = map node_cue_number rows"
    and "map node_last_updated rows = column \<Longrightarrow>
         map (\<lambda>(r, v). r\<lparr>node_last_updated := v\<rparr>) (zip rows column) = rows"
  using assms by (induction column rows rule: list_induct2) simp_all

lemma update_last_updated_returns:
  assumes "update_last_updated now st = (Inr (), st')"
  shows "map (\<lambda>r. r\<lparr>node_last_updated := None\<rparr>) (nf_rows (nodes st'))
           = map (\<lambda>r. r\<lparr>node_last_updated := None\<rparr>) (nf_rows (nodes st))"
    and "map (\<lambda>r. Inr (node_last_updated r)) (nf_rows (nodes st'))
           = map (\<lambda>r. format_timestamp now (node_timestamp r)) (nf_rows (nodes st))"
    and "map node_cue_number (nf_rows (nodes st')) = map node_cue_number (nf_rows (nodes st))"
    and "st'\<lparr>nodes := nodes st\<rparr> = st"
    and "update_last_updated now st' = (Inr (), st')"
proof -
  let ?rows = "nf_rows (nodes st)"
  from assms obtain column where
    col: "series_map (format_timestamp now) (map node_timestamp ?rows) = Inr column"
    and st': "st' = st\<lparr>nodes := \<lparr>nf_rows = map (\<lambda>(r, v). r\<lparr>node_last_updated := v\<rparr>) (zip ?rows column),
                                    nf_has_last_updated = True\<rparr>\<rparr>"
    by (auto simp: update_last_updated_def split: sum.splits)
  let ?rows' = "map (\<lambda>(r, v). r\<lparr>node_last_updated := v\<rparr>) (zip ?rows column)"
  have rows': "nf_rows (nodes st') = ?rows'" by (simp add: st')
  from col have mp: "map (format_timestamp now) (map node_timestamp ?rows) = map Inr column"
    by (simp only: series_map_Inr)
  then have len: "length column = length ?rows" by (metis length_map)
  show "map (\<lambda>r. r\<lparr>node_last_updated := None\<rparr>) (nf_rows (nodes st'))
           = map (\<lambda>r. r\<lparr>node_last_updated := None\<rparr>) ?rows"
    unfolding rows' by (rule refreshed_rows(1)[OF len])
  have "map Inr (map node_last_updated ?rows') = map Inr column"
    by (simp only: refreshed_rows(2)[OF len])
  then show "map (\<lambda>r. Inr (node_last_updated r)) (nf_rows (nodes st'))
           = map (\<lambda>r. format_timestamp now (node_timestamp r)) ?rows"
    unfolding rows' using mp by (simp add: o_def)
  show "map node_cue_number (nf_rows (nodes st')) = map node_cue_number ?rows"
    unfolding rows' by (rule refreshed_rows(4)[OF len])
  show "st'\<lparr>nodes := nodes st\<rparr> = st" by (simp add: st')
  have ts: "map node_timestamp ?rows' = map node_timestamp ?rows" by (rule refreshed_rows(3)[OF len])
  have len': "length column = length ?rows'" using len by simp
  have again: "map (\<lambda>(r, v). r\<lparr>node_last_updated := v\<rparr>) (zip ?rows' column) = ?rows'"
    by (rule refreshed_rows(5)[OF len' refreshed_rows(2)[OF len]])
  have "series_map (format_timestamp now) (map node_timestamp (nf_rows (nodes st'))) = Inr column"
    unfolding rows' ts by (rule col)
  then show "update_last_updated now st' = (Inr (), st')"
    unfolding update_last_updated_def using again by (simp add: rows' st')
qed

lemma update_last_updated_raises:
  assumes "update_last_updated now st = (Inl e, st')"
  shows "st' = st \<and> e = OutOfBoundsDatetime
         \<and> (\<exists>r \<in> set (nf_rows (nodes st)). \<exists>t. node_timestamp r = Some t \<and> \<not> timedelta_fits (now - t))"
proof -
  from assms have e: "series_map (format_timestamp now) (map node_timestamp (nf_rows (nodes st))) = Inl e"
    and s: "st' = st"
    by (auto simp: update_last_updated_def split: sum.splits)
  from series_map_Inl[OF e] obtain r where "r \<in> set (nf_rows (nodes st))"
    "format_timestamp now (node_timestamp r) = Inl e" by auto
  then show ?thesis using s by (auto simp: format_timestamp_Inl)
qed

lemma update_last_updated_in_range:
  assumes "\<forall>r \<in> set (nf_rows (nodes st)). \<forall>t. node_timestamp r = Some t \<longrightarrow> timedelta_fits (now - t)"
  shows "\<exists>st'. update_last_updated now st = (Inr (), st')"
proof (cases "update_last_updated now st")
  case (Pair res st')
  show ?thesis
  proof (cases res)
    case (Inl e)
    with Pair update_last_updated_raises[of now st e st'] assms show ?thesis by blast
  next
    case (Inr u)
    with Pair show ?thesis by simp
  qed
qed

text \<open>
  A series for a cue number that two rows of the frame carry: the assignment raises
  ValueError and the stored frame stays as it was. A series for a cue number that
  one row carries replaces the cells of that row.
\<close>

lemma format_nodes_duplicate_cue:
  "format_nodes 60000000 (Some [known_series])
       (start_data\<lparr>nodes := \<lparr>nf_rows = twin_rows, nf_has_last_updated = True\<rparr>\<rparr>)
     = (Inl ValueError, start_data\<lparr>nodes := \<lparr>nf_rows = twin_rows, nf_has_last_updated = True\<rparr>\<rparr>)
   \<and> fst (format_nodes 60000000 (Some [known_series]) start_data) = Inr ()
   \<and> map node_node_state (nf_rows (nodes (snd (format_nodes 60000000 (Some [known_series]) start_data))))
        = [Some ''Off'']
   \<and> map node_last_updated (nf_rows (nodes (snd (format_nodes 60000000 (Some [known_series]) start_data))))
        = [Some ''0 min'']"
proof -
  have "series_loop [known_series] twin_rows = Inl ValueError" by code_simp
  then have a: "format_nodes 60000000 (Some [known_series])
       (start_data\<lparr>nodes := \<lparr>nf_rows = twin_rows, nf_has_last_updated = True\<rparr>\<rparr>)
     = (Inl ValueError, start_data\<lparr>nodes := \<lparr>nf_rows = twin_rows, nf_has_last_updated = True\<rparr>\<rparr>)"
    by (simp add: format_nodes_def)
  have b: "fst (format_nodes 60000000 (Some [known_series]) start_data) = Inr ()" by code_simp
  have c: "map node_node_state (nf_rows (nodes (snd (format_nodes 60000000 (Some [known_series]) start_data))))
        = [Some ''Off'']" by code_simp
  have d: "map node_last_updated (nf_rows (nodes (snd (format_nodes 60000000 (Some [known_series]) start_data))))
        = [Some ''0 min'']" by code_simp
  show ?thesis using a b c d by (simp only: simp_thms)
qed




lemma round_half_even_near:
  assumes "0 < b"
  shows "2 * \<bar>b * round_half_even a b - a\<bar> \<le> b"
proof -
  define q r x where "q = a div b" and "r = a mod b" and "x = b * q"
  have r: "0 \<le> r" "r < b" using assms by (simp_all add: r_def)
  have a: "a = x + r" by (simp add: q_def r_def x_def)
  have x1: "b * (q + 1) = x + b" by (simp add: x_def algebra_simps)
  have "round_half_even a b = (if 2 * r < b then q else if b < 2 * r then q + 1 else if even q then q else q + 1)"
    by (simp add: round_half_even_def Let_def q_def r_def)
  then consider "round_half_even a b = q" "2 * r \<le> b" | "round_half_even a b = q + 1" "b \<le> 2 * r"
    by (auto split: if_splits)
  then show ?thesis
  proof cases
    case 1
    then have "b * round_half_even a b - a = - r" using a by (simp add: x_def)
    then show ?thesis using 1(2) r by simp
  next
    case 2
    then have "b * round_half_even a b - a = b - r" using a x1 by simp
    then show ?thesis using 2(2) r by simp
  qed
qed


lemma total_minutes_near: "2 * \<bar>60000000 * total_minutes e - e\<bar> \<le> 60000000"
  unfolding total_minutes_def by (rule round_half_even_near) simp

lemma total_minutes_le:
  assumes "e \<le> 99 * 60000000"
  shows "total_minutes e \<le> 99"
proof (rule ccontr)
  assume "\<not> total_minutes e \<le> 99"
  then have "100 \<le> total_minutes e" by simp
  then have a: "6000000000 \<le> 60000000 * total_minutes e" by simp
  define d where "d = 60000000 * total_minutes e - e"
  have n: "2 * \<bar>d\<bar> \<le> 60000000" unfolding d_def by (rule total_minutes_near)
  have "d \<le> \<bar>d\<bar>" by (rule abs_ge_self)
  with n have le: "d \<le> 30000000" by linarith
  have "60000000 \<le> d" unfolding d_def using a assms by linarith
  with le show False by linarith
qed

lemma total_minutes_gt:
  assumes "99 * 60000000 + 30000000 \<le> e"
  shows "99 < total_minutes e"
proof -
  define q r where "q = e div 60000000" and "r = e mod 60000000"
  have r: "0 \<le> r" "r < 60000000" by (simp_all add: r_def)
  have e: "e = 60000000 * q + r" by (simp add: q_def r_def)
  have q: "99 \<le> q" using assms e r by linarith
  have t: "total_minutes e = (if 2 * r < 60000000 then q else if 60000000 < 2 * r then q + 1 else if even q then q else q + 1)"
    by (simp add: total_minutes_def round_half_even_def Let_def q_def r_def)
  show ?thesis
  proof (cases "q = 99")
    case True
    then have "60000000 \<le> 2 * r" using assms e by linarith
    then show ?thesis using t True by auto
  next
    case False
    then have "100 \<le> q" using q by simp
    then show ?thesis using t by auto
  qed
qed


text \<open>
  Claim C9, as stated, at concrete inputs. A timestamp 99 minutes and 20 seconds in
  the past is more than 99 minutes old, yet the display is \<open>99 min\<close> and not
  \<open>>99 min\<close>: the threshold is applied to the rounded number of minutes. And a
  timestamp of the year 1684, read in 2023, is more than 99 minutes old, yet there
  is no display at all: the subtraction raises OutOfBoundsDatetime.
\<close>

theorem refresh_staleness_counterexample:
  "99 * 60000000 < (5960000000::int) - 0
   \<and> format_timestamp 5960000000 (Some 0) = Inr (Some ''99 min'')
   \<and> format_timestamp 5960000000 (Some 0) \<noteq> Inr (Some ''>99 min'')
   \<and> 99 * 60000000 < (1700000000000000::int) - (- 9000000000000000)
   \<and> format_timestamp 1700000000000000 (Some (- 9000000000000000)) = Inl OutOfBoundsDatetime
   \<and> format_timestamp 1700000000000000 (Some (- 9000000000000000)) \<noteq> Inr (Some ''>99 min'')"
proof -
  have "format_timestamp 5960000000 (Some 0) = Inr (Some ''99 min'')" by code_simp
  moreover have "format_timestamp 1700000000000000 (Some (- 9000000000000000)) = Inl OutOfBoundsDatetime"
    by code_simp
  ultimately show ?thesis by simp
qed

text \<open>
  Claim C9, amended. Take timestamps whose distance from now fits a \<open>Timedelta\<close>
  (less than \<open>2^63\<close> nanoseconds, about 292 years). \<open>update_last_updated\<close> recomputes
  Last Updated for every row from \<open>now - timestamp\<close> and changes nothing else. With \<open>n\<close>
  the elapsed time rounded to the nearest whole minute (a tie going to the even
  number), the display is \<open>{n} min\<close> when \<open>n \<le> 99\<close> and \<open>>99 min\<close> when \<open>n > 99\<close>; so an
  elapsed time of at most 99 minutes gives \<open>{n} min\<close> and one of at least 99.5 minutes
  gives \<open>>99 min\<close>. A row without a timestamp gets a missing value. Running the
  refresh again at the same instant changes nothing more. A timestamp outside the
  range makes the subtraction raise OutOfBoundsDatetime, and then the stored table
  is left as it was.
\<close>

theorem refresh_staleness_rounded:
  "format_timestamp now None = Inr None
   \<and> 2 * \<bar>60000000 * total_minutes (now - t) - (now - t)\<bar> \<le> 60000000
   \<and> (timedelta_fits (now - t) \<and> total_minutes (now - t) \<le> 99 \<longrightarrow>
        format_timestamp now (Some t) = Inr (Some (str_int (total_minutes (now - t)) @ '' min'')))
   \<and> (timedelta_fits (now - t) \<and> 99 < total_minutes (now - t) \<longrightarrow>
        format_timestamp now (Some t) = Inr (Some ''>99 min''))
   \<and> (timedelta_fits (now - t) \<and> now - t \<le> 99 * 60000000 \<longrightarrow>
        format_timestamp now (Some t) = Inr (Some (str_int (total_minutes (now - t)) @ '' min'')))
   \<and> (timedelta_fits (now - t) \<and> 99 * 60000000 + 30000000 \<le> now - t \<longrightarrow>
        format_timestamp now (Some t) = Inr (Some ''>99 min''))
   \<and> (\<not> timedelta_fits (now - t) \<longrightarrow> format_timestamp now (Some t) = Inl OutOfBoundsDatetime)
   \<and> ((\<forall>r \<in> set (nf_rows (nodes st)). \<forall>t. node_timestamp r = Some t \<longrightarrow> timedelta_fits (now - t)) \<longrightarrow>
        (\<exists>st'. update_last_updated now st = (Inr (), st')
           \<and> map (\<lambda>r. Inr (node_last_updated r)) (nf_rows (nodes st'))
                = map (\<lambda>r. format_timestamp now (node_timestamp r)) (nf_rows (nodes st))
           \<and> map (\<lambda>r. r\<lparr>node_last_updated := None\<rparr>) (nf_rows (nodes st'))
                = map (\<lambda>r. r\<lparr>node_last_updated := None\<rparr>) (nf_rows (nodes st))
           \<and> st'\<lparr>nodes := nodes st\<rparr> = st
           \<and> update_last_updated now st' = (Inr (), st')))
   \<and> ((\<exists>r \<in> set (nf_rows (nodes st)). \<exists>t. node_timestamp r = Some t \<and> \<not> timedelta_fits (now - t)) \<longrightarrow>
        update_last_updated now st = (Inl OutOfBoundsDatetime, st))"
proof -
  have a: "format_timestamp now None = Inr None" by (simp add: format_timestamp_def)
  have b: "2 * \<bar>60000000 * total_minutes (now - t) - (now - t)\<bar> \<le> 60000000"
    by (rule total_minutes_near)
  have c: "timedelta_fits (now - t) \<and> total_minutes (now - t) \<le> 99 \<Longrightarrow>
        format_timestamp now (Some t) = Inr (Some (str_int (total_minutes (now - t)) @ '' min''))"
    by (simp add: format_timestamp_def Let_def)
  have d: "timedelta_fits (now - t) \<and> 99 < total_minutes (now - t) \<Longrightarrow>
        format_timestamp now (Some t) = Inr (Some ''>99 min'')"
    by (simp add: format_timestamp_def Let_def)
  have e: "timedelta_fits (now - t) \<and> now - t \<le> 99 * 60000000 \<Longrightarrow>
        format_timestamp now (Some t) = Inr (Some (str_int (total_minutes (now - t)) @ '' min''))"
    using c total_minutes_le by blast
  have f: "timedelta_fits (now - t) \<and> 99 * 60000000 + 30000000 \<le> now - t \<Longrightarrow>
        format_timestamp now (Some t) = Inr (Some ''>99 min'')"
    using d total_minutes_gt by blast
  have g: "\<not> timedelta_fits (now - t) \<Longrightarrow> format_timestamp now (Some t) = Inl OutOfBoundsDatetime"
    by (simp add: format_timestamp_def)
  have h: "\<exists>st'. update_last_updated now st = (Inr (), st')
           \<and> map (\<lambda>r. Inr (node_last_updated r)) (nf_rows (nodes st'))
                = map (\<lambda>r. format_timestamp now (node_timestamp r)) (nf_rows (nodes st))
           \<and> map (\<lambda>r. r\<lparr>node_last_updated := None\<rparr>) (nf_rows (nodes st'))
                = map (\<lambda>r. r\<lparr>node_last_updated := None\<rparr>) (nf_rows (nodes st))
           \<and> st'\<lparr>nodes := nodes st\<rparr> = st
           \<and> update_last_updated now st' = (Inr (), st')"
    if "\<forall>r \<in> set (nf_rows (nodes st)). \<forall>t. node_timestamp r = Some t \<longrightarrow> timedelta_fits (now - t)"
  proof -
    from update_last_updated_in_range[OF that] obtain st' where
      u: "update_last_updated now st = (Inr (), st')" by blast
    from update_last_updated_returns[OF u] u show ?thesis by blast
  qed
  have i: "update_last_updated now st = (Inl OutOfBoundsDatetime, st)"
    if "\<exists>r \<in> set (nf_rows (nodes st)). \<exists>t. node_timestamp r = Some t \<and> \<not> timedelta_fits (now - t)"
  proof (cases "update_last_updated now st")
    case (Pair res st')
    show ?thesis
    proof (cases res)
      case (Inl e)
      with Pair update_last_updated_raises[of now st e st'] show ?thesis by simp
    next
      case (Inr u)
      with Pair have u: "update_last_updated now st = (Inr (), st')" by simp
      from that obtain r t where r: "r \<in> set (nf_rows (nodes st))" "node_timestamp r = Some t"
        "\<not> timedelta_fits (now - t)" by blast
      from update_last_updated_returns(2)[OF u]
      have "map (\<lambda>r. format_timestamp now (node_timestamp r)) (nf_rows (nodes st))
              = map (\<lambda>r. Inr (node_last_updated r)) (nf_rows (nodes st'))" by simp
      then have "format_timestamp now (node_timestamp r)
              \<in> set (map (\<lambda>r. Inr (node_last_updated r)) (nf_rows (nodes st')))"
        using r(1) by (metis (no_types, lifting) image_eqI list.set_map)
      then obtain v where "format_timestamp now (Some t) = Inr v" using r(2) by auto
      with g[of ] r(3) show ?thesis by (simp add: format_timestamp_def)
    qed
  qed
  show ?thesis using a b c d e f g h i by blast
qed

theorem refresh_staleness_rounded_witness:
  "timedelta_fits (300000000 - 0) \<and> (300000000::int) - 0 \<le> 99 * 60000000
   \<and> format_timestamp 300000000 (Some 0) = Inr (Some ''5 min'')
   \<and> timedelta_fits (9000000000 - 0) \<and> 99 * 60000000 + 30000000 \<le> (9000000000::int) - 0
   \<and> format_timestamp 9000000000 (Some 0) = Inr (Some ''>99 min'')
   \<and> timedelta_fits (5960000000 - 0) \<and> total_minutes (5960000000 - 0) \<le> 99
   \<and> format_timestamp 5960000000 (Some 0) = Inr (Some ''99 min'')
   \<and> \<not> timedelta_fits (1700000000000000 - (- 9000000000000000))
   \<and> format_timestamp 1700000000000000 (Some (- 9000000000000000)) = Inl OutOfBoundsDatetime"
proof -
  have s5: "str_int (total_minutes (300000000 - 0)) @ '' min'' = ''5 min''" by code_simp
  have s99: "str_int (total_minutes (5960000000 - 0)) @ '' min'' = ''99 min''" by code_simp
  have t99: "total_minutes (5960000000 - 0) \<le> 99" by code_simp
  have h1: "(300000000::int) - 0 \<le> 99 * 60000000" by simp
  have h2: "99 * 60000000 + 30000000 \<le> (9000000000::int) - 0" by simp
  have f1: "timedelta_fits (300000000 - 0)" and f2: "timedelta_fits (9000000000 - 0)"
    and f3: "timedelta_fits (5960000000 - 0)" and f4: "\<not> timedelta_fits (1700000000000000 - (- 9000000000000000))"
    by code_simp+
  from refresh_staleness_rounded[of 300000000 0] h1 f1 s5
  have a: "format_timestamp 300000000 (Some 0) = Inr (Some ''5 min'')" by (simp only:)
  from refresh_staleness_rounded[of 9000000000 0] h2 f2
  have b: "format_timestamp 9000000000 (Some 0) = Inr (Some ''>99 min'')" by (simp only:)
  from refresh_staleness_rounded[of 5960000000 0] t99 f3 s99
  have c: "format_timestamp 5960000000 (Some 0) = Inr (Some ''99 min'')" by (simp only:)
  from refresh_staleness_rounded[of 1700000000000000 "- 9000000000000000"] f4
  have d: "format_timestamp 1700000000000000 (Some (- 9000000000000000)) = Inl OutOfBoundsDatetime" by blast
  show ?thesis using a b c d h1 h2 t99 f1 f2 f3 f4 by (simp only: simp_thms)
qed

section \<open>Properties of the communication\<close>

lemma load_each_all:
  "map loads elements = map Loaded vs \<Longrightarrow> load_each loads elements = Loaded vs"
  by (induction elements arbitrary: vs) auto

lemma load_each_first_failure:
  assumes "map loads before = map Loaded vs"
  shows "loads element = Unpickling_Error \<Longrightarrow>
           load_each loads (before @ element # later) = Unpickling_Error"
    and "loads element = Other_Error \<Longrightarrow>
           load_each loads (before @ element # later) = Other_Error"
  using assms by (induction before arbitrary: vs; auto)+

text \<open>
  Claim C3, as stated, at concrete inputs. The daemon's answer \<open>mixed_response\<close> holds
  two records; the first loads to 5, the second raises UnpicklingError. The claim
  asks for the one good value; \<open>__data_decode\<close> returns the empty list, because the one
  handler around the whole list comprehension discards the batch. On a single
  backslash the first \<open>escape_decode\<close> raises ValueError, outside the \<open>try\<close>. And on
  \<open>value_error_first_response\<close>, whose first record makes \<open>loads\<close> raise ValueError,
  the \<open>return\<close> in the \<open>finally\<close> block raises UnboundLocalError.
\<close>

theorem data_decode_counterexample:
  "map loads_example (records_of (the (escape_decode (the (escape_decode mixed_response)))))
     = [Loaded 5, Unpickling_Error]
   \<and> data_decode escape_decode loads_example mixed_response = Inr []
   \<and> data_decode escape_decode loads_example mixed_response \<noteq> Inr [5]
   \<and> data_decode escape_decode loads_example [CHR 0x5C] = Inl ValueError
   \<and> data_decode escape_decode loads_example value_error_first_response = Inl UnboundLocalError"
  by code_simp

text \<open>
  Claim C3, amended. \<open>__data_decode\<close> loads the remaining records in order, as one
  batch. When every record loads, it returns all the values in order (the empty
  list when no record remains). Otherwise the first record that fails decides: if
  it fails with UnpicklingError, the whole batch is discarded and the empty list is
  returned, whatever the records after it are; if it fails with another exception,
  \<open>__data_decode\<close> raises UnboundLocalError. An answer that \<open>escape_decode\<close> rejects, at
  the first or the second pass, makes \<open>__data_decode\<close> raise ValueError.
\<close>

theorem data_decode_first_failure:
  "(unescape data = Some once \<and> unescape once = Some twice
      \<and> map loads (records_of twice) = map Loaded vs \<longrightarrow>
        data_decode unescape loads data = Inr vs)
   \<and> (unescape data = Some once \<and> unescape once = Some twice
      \<and> records_of twice = before @ element # later \<and> map loads before = map Loaded vs
      \<and> loads element = Unpickling_Error \<longrightarrow>
        data_decode unescape loads data = Inr [])
   \<and> (unescape data = Some once \<and> unescape once = Some twice
      \<and> records_of twice = before @ element # later \<and> map loads before = map Loaded vs
      \<and> loads element = Other_Error \<longrightarrow>
        data_decode unescape loads data = Inl UnboundLocalError)
   \<and> (unescape data = None \<or> (unescape data = Some once \<and> unescape once = None) \<longrightarrow>
        data_decode unescape loads data = Inl ValueError)"
proof -
  have a: "data_decode unescape loads data = Inr vs"
    if "unescape data = Some once" "unescape once = Some twice"
       "map loads (records_of twice) = map Loaded vs"
    using that by (simp add: data_decode_def load_each_all)
  have b: "data_decode unescape loads data = Inr []"
    if "unescape data = Some once" "unescape once = Some twice"
       "records_of twice = before @ element # later" "map loads before = map Loaded vs"
       "loads element = Unpickling_Error"
    using that load_each_first_failure(1)[OF that(4,5), of later]
    by (simp add: data_decode_def)
  have c: "data_decode unescape loads data = Inl UnboundLocalError"
    if "unescape data = Some once" "unescape once = Some twice"
       "records_of twice = before @ element # later" "map loads before = map Loaded vs"
       "loads element = Other_Error"
    using that load_each_first_failure(2)[OF that(4,5), of later]
    by (simp add: data_decode_def)
  have d: "data_decode unescape loads data = Inl ValueError"
    if "unescape data = None \<or> (unescape data = Some once \<and> unescape once = None)"
    using that by (auto simp: data_decode_def)
  show ?thesis using a b c d by blast
qed

theorem data_decode_first_failure_witness:
  "escape_decode single_response \<noteq> None
   \<and> data_decode escape_decode loads_example single_response = Inr [5]
   \<and> map loads_example (records_of (the (escape_decode (the (escape_decode mixed_response)))))
        = [Loaded 5, Unpickling_Error]
   \<and> data_decode escape_decode loads_example mixed_response = Inr []
   \<and> map loads_example (records_of (the (escape_decode (the (escape_decode unpickling_first_response)))))
        = [Unpickling_Error, Other_Error]
   \<and> data_decode escape_decode loads_example unpickling_first_response = Inr []
   \<and> map loads_example (records_of (the (escape_decode (the (escape_decode value_error_first_response)))))
        = [Other_Error, Unpickling_Error]
   \<and> data_decode escape_decode loads_example value_error_first_response = Inl UnboundLocalError
   \<and> escape_decode [CHR 0x5C] = None
   \<and> data_decode escape_decode loads_example [CHR 0x5C] = Inl ValueError"
proof -
  obtain once where o: "escape_decode single_response = Some once"
    and t: "escape_decode once = Some once"
    and r: "map loads_example (records_of once) = map Loaded [5]"
    by (rule that[of "the (escape_decode single_response)"]; code_simp)
  from data_decode_first_failure[of escape_decode single_response once once loads_example "[5]"] o t r
  have a: "data_decode escape_decode loads_example single_response = Inr [5]" by blast
  have m: "map loads_example (records_of (the (escape_decode (the (escape_decode mixed_response)))))
        = [Loaded 5, Unpickling_Error]" by code_simp
  obtain once2 e1 e2 where o2: "escape_decode mixed_response = Some once2"
    and t2: "escape_decode once2 = Some once2"
    and r2: "records_of once2 = [e1] @ e2 # []"
    and l2: "map loads_example [e1] = map Loaded [5]" "loads_example e2 = Unpickling_Error"
    by (rule that[of "the (escape_decode mixed_response)"
                     "hd (records_of (the (escape_decode mixed_response)))"
                     "hd (tl (records_of (the (escape_decode mixed_response))))"]; code_simp)
  from data_decode_first_failure[of escape_decode mixed_response once2 once2 loads_example _ "[e1]" e2 "[]"]
    o2 t2 r2 l2
  have b: "data_decode escape_decode loads_example mixed_response = Inr []" by blast
  have m3: "map loads_example (records_of (the (escape_decode (the (escape_decode unpickling_first_response)))))
        = [Unpickling_Error, Other_Error]" by code_simp
  obtain once3 e3 e4 where o3: "escape_decode unpickling_first_response = Some once3"
    and t3: "escape_decode once3 = Some once3"
    and r3: "records_of once3 = [] @ e3 # [e4]"
    and l3: "loads_example e3 = Unpickling_Error"
    by (rule that[of "the (escape_decode unpickling_first_response)"
                     "hd (records_of (the (escape_decode unpickling_first_response)))"
                     "hd (tl (records_of (the (escape_decode unpickling_first_response))))"]; code_simp)
  have l0: "map loads_example [] = map Loaded []" by simp
  from data_decode_first_failure[of escape_decode unpickling_first_response once3 once3 loads_example _ "[]" e3 "[e4]"]
    o3 t3 r3 l3 l0
  have c: "data_decode escape_decode loads_example unpickling_first_response = Inr []" by blast
  have m4: "map loads_example (records_of (the (escape_decode (the (escape_decode value_error_first_response)))))
        = [Other_Error, Unpickling_Error]" by code_simp
  obtain once4 e5 e6 where o4: "escape_decode value_error_first_response = Some once4"
    and t4: "escape_decode once4 = Some once4"
    and r4: "records_of once4 = [] @ e5 # [e6]"
    and l4: "loads_example e5 = Other_Error"
    by (rule that[of "the (escape_decode value_error_first_response)"
                     "hd (records_of (the (escape_decode value_error_first_response)))"
                     "hd (tl (records_of (the (escape_decode value_error_first_response))))"]; code_simp)
  from data_decode_first_failure[of escape_decode value_error_first_response once4 once4 loads_example _ "[]" e5 "[e6]"]
    o4 t4 r4 l4 l0
  have d: "data_decode escape_decode loads_example value_error_first_response = Inl UnboundLocalError"
    by blast
  have n: "escape_decode [CHR 0x5C] = None" by simp
  from data_decode_first_failure[of escape_decode "[CHR 0x5C]" _ _ loads_example] n
  have e: "data_decode escape_decode loads_example [CHR 0x5C] = Inl ValueError" by blast
  show ?thesis using a b c d e m m3 m4 n o by (simp only: simp_thms option.distinct not_False_eq_True)
qed

text \<open>
  Claim C4, as stated, at concrete inputs. The daemon answers with a single
  backslash: no record decodes, and \<open>receive_data\<close> does not return None, it lets the
  ValueError of \<open>__data_decode\<close> through. The same happens with the UnboundLocalError
  on \<open>value_error_first_response\<close>. In both cases nothing is recorded in
  \<open>received_data_dict\<close>.
\<close>

theorem receive_data_counterexample:
  "fst (receive_data escape_decode loads_example [CHR 0x5C] 71 True Map.empty) = Inl ValueError
   \<and> fst (receive_data escape_decode loads_example [CHR 0x5C] 71 True Map.empty) \<noteq> Inr Nothing
   \<and> snd (receive_data escape_decode loads_example [CHR 0x5C] 71 True Map.empty) 71 = None
   \<and> fst (receive_data escape_decode loads_example value_error_first_response 71 True Map.empty)
        = Inl UnboundLocalError
   \<and> fst (receive_data escape_decode loads_example value_error_first_response 71 True Map.empty)
        \<noteq> Inr Nothing"
proof -
  have a: "data_decode escape_decode loads_example [CHR 0x5C] = Inl ValueError" by code_simp
  have b: "data_decode escape_decode loads_example value_error_first_response = Inl UnboundLocalError"
    by code_simp
  show ?thesis by (simp add: receive_data_def a b)
qed

text \<open>
  Claim C4, amended. For every channel number and every answer of the daemon that
  \<open>__data_decode\<close> decodes to a list \<open>data\<close>: \<open>receive_data\<close> returns None when \<open>data\<close> is
  empty; the decoded object itself when \<open>data\<close> has one element and \<open>singular\<close> is true;
  the list otherwise, in particular for more than one element whatever \<open>singular\<close>
  is; and the list is recorded under the channel number in \<open>received_data_dict\<close>.
  For every answer on which \<open>__data_decode\<close> raises, \<open>receive_data\<close> raises the same
  exception and records nothing.
\<close>

theorem receive_data_result:
  "(data_decode unescape loads output = Inr data \<longrightarrow>
      (data = [] \<longrightarrow>
          fst (receive_data unescape loads output datatype singular d) = Inr Nothing)
      \<and> (\<forall>v. data = [v] \<and> singular \<longrightarrow>
          fst (receive_data unescape loads output datatype singular d) = Inr (Single v))
      \<and> (\<forall>v. data = [v] \<and> \<not> singular \<longrightarrow>
          fst (receive_data unescape loads output datatype singular d) = Inr (Many [v]))
      \<and> (1 < length data \<longrightarrow>
          fst (receive_data unescape loads output datatype singular d) = Inr (Many data))
      \<and> snd (receive_data unescape loads output datatype singular d) = d(datatype \<mapsto> data))
   \<and> (data_decode unescape loads output = Inl e \<longrightarrow>
        receive_data unescape loads output datatype singular d = (Inl e, d))"
  by (auto simp: receive_data_def)

theorem receive_data_result_witness:
  "data_decode escape_decode loads_example single_response = Inr [5]
   \<and> fst (receive_data escape_decode loads_example single_response 71 True Map.empty) = Inr (Single 5)
   \<and> fst (receive_data escape_decode loads_example single_response 71 False Map.empty) = Inr (Many [5])
   \<and> data_decode escape_decode loads_example mixed_response = Inr []
   \<and> fst (receive_data escape_decode loads_example mixed_response 71 True Map.empty) = Inr Nothing
   \<and> data_decode escape_decode loads_example [CHR 0x5C] = Inl ValueError
   \<and> receive_data escape_decode loads_example [CHR 0x5C] 71 True Map.empty = (Inl ValueError, Map.empty)"
proof -
  have a: "data_decode escape_decode loads_example single_response = Inr [5]" by code_simp
  have b: "data_decode escape_decode loads_example mixed_response = Inr []" by code_simp
  have c: "data_decode escape_decode loads_example [CHR 0x5C] = Inl ValueError" by code_simp
  from receive_data_result[of escape_decode loads_example single_response "[5]" 71 True Map.empty] a
  have r1: "fst (receive_data escape_decode loads_example single_response 71 True Map.empty) = Inr (Single 5)"
    by simp
  from receive_data_result[of escape_decode loads_example single_response "[5]" 71 False Map.empty] a
  have r2: "fst (receive_data escape_decode loads_example single_response 71 False Map.empty) = Inr (Many [5])"
    by simp
  from receive_data_result[of escape_decode loads_example mixed_response "[]" 71 True Map.empty] b
  have r3: "fst (receive_data escape_decode loads_example mixed_response 71 True Map.empty) = Inr Nothing"
    by simp
  from receive_data_result[of escape_decode loads_example "[CHR 0x5C]" _ 71 True Map.empty ValueError] c
  have r4: "receive_data escape_decode loads_example [CHR 0x5C] 71 True Map.empty = (Inl ValueError, Map.empty)"
    by simp
  show ?thesis using a b c r1 r2 r3 r4 by (simp only: simp_thms)
qed

section \<open>Properties of the formatter\<close>

lemma valid_rowE:
  assumes "valid_row attrs names r"
  obtains (blank) "r = blank_row"
    | (cue) n w a s where "r = (Some n, (Some w, Some a, Some s))" "n \<noteq> ''last_row_storage''"
        "resolves attrs n" "s \<in> set names"
  using assms by (cases "(attrs, names, r)" rule: valid_row.cases) (auto simp: blank_row_def)

lemma kept_zip:
  "filter (\<lambda>(i, d). \<not> (i = None \<and> d = no_data))
     (zip (map fst rows @ [Some ''last_row_storage'']) (prev # map snd rows)) = kept_rows prev rows"
  by (induction rows arbitrary: prev) auto

lemma kept_stored:
  assumes "Some ''last_row_storage'' \<notin> set (map fst rows)"
  shows "filter (\<lambda>(i, d). \<not> (i = None \<and> d = no_data))
           (zip (map fst (add_last_row_storage rows))
                (shift_down no_data (map snd (add_last_row_storage rows)))) = kept_rows no_data rows"
proof -
  have eq: "add_last_row_storage rows = rows @ [(Some ''last_row_storage'', no_data)]"
    using assms by (simp add: add_last_row_storage_def)
  have fs: "map fst (rows @ [(Some ''last_row_storage'', no_data)]) = map fst rows @ [Some ''last_row_storage'']"
    by simp
  have sd: "shift_down no_data (map snd (rows @ [(Some ''last_row_storage'', no_data)])) = no_data # map snd rows"
    by (simp add: shift_down_def butlast_append)
  show ?thesis unfolding eq fs sd by (rule kept_zip)
qed

lemma loop_general:
  "group_prefix_loop attrs is g gc pc =
     (case first_problem attrs is of
        Some e \<Rightarrow> Inl e
      | None \<Rightarrow> Inr (gc @ groups_from g is, pc @ map (case_option None (prefix_of attrs)) is))"
  by (induction attrs "is" g gc pc rule: group_prefix_loop.induct)
     (auto simp: prefix_of_def split: sum.splits option.splits)

lemma emitted_zip:
  "K \<noteq> [] \<Longrightarrow>
   List.map_filter complete_cue
     (zip (groups_from g (map fst K))
       (zip (map fst K)
         (zip (butlast (map (case_option None pf) (map fst K)) @ [None])
              (tl (map snd K) @ [no_data])))) = emitted pf g K"
proof (induction pf g K rule: emitted.induct)
  case (1 pf g)
  then show ?case by simp
next
  case (2 pf g x)
  then show ?case by (cases x; cases "fst x") (auto simp: List.map_filter_simps)
next
  case (3 pf g i d j d' rest)
  then show ?case
    by (cases i) (auto simp: List.map_filter_simps Let_def split: option.splits)
qed


lemma kept_rows_nonempty: "kept_rows prev rows \<noteq> []"
  by (induction rows arbitrary: prev) (auto split: if_splits)

lemma emitted_after:
  assumes "\<forall>r \<in> set rows. row_ok pf r"
  shows "pf n = Some (potential_prefix n) \<Longrightarrow>
            emitted pf g ((Some n, x) # kept_rows (Some w, Some a, Some s) rows) =
              \<lparr>cue_group_number = g, cue_number = n, cue_prefix = potential_prefix n, cue_when = w,
               cue_action = a, cue_state = s\<rparr> # direct_pass g True rows"
    and "emitted pf g ((None, x) # kept_rows no_data rows) = direct_pass (g + 1) False rows"
  using assms
proof (induction rows arbitrary: g n x w a s)
  case Nil
  {
    case 1
    then show ?case by simp
  next
    case 2
    then show ?case by (simp add: no_data_def)
  }
next
  case (Cons r rows)
  {
    case 1
    then have ok: "row_ok pf r" and oks: "\<forall>r \<in> set rows. row_ok pf r" by simp_all
    from ok consider (blank) "r = blank_row"
      | (cue) n2 w2 a2 s2 where "r = (Some n2, (Some w2, Some a2, Some s2))" "pf n2 = Some (potential_prefix n2)"
      by (auto simp: row_ok_def)
    then show ?case
    proof cases
      case blank
      have "emitted pf g ((None, (Some w, Some a, Some s)) # kept_rows no_data rows)
              = direct_pass (g + 1) False rows"
        by (rule Cons.IH(2)[OF oks])
      then show ?thesis using blank 1(1) by (simp add: blank_row_def no_data_def)
    next
      case cue
      have "emitted pf g ((Some n2, (Some w, Some a, Some s)) # kept_rows (Some w2, Some a2, Some s2) rows)
              = \<lparr>cue_group_number = g, cue_number = n2, cue_prefix = potential_prefix n2, cue_when = w2,
                  cue_action = a2, cue_state = s2\<rparr> # direct_pass g True rows"
        by (rule Cons.IH(1)[OF cue(2) oks])
      then show ?thesis using cue 1(1) by simp
    qed
  next
    case 2
    then have ok: "row_ok pf r" and oks: "\<forall>r \<in> set rows. row_ok pf r" by simp_all
    from ok consider (blank) "r = blank_row"
      | (cue) n2 w2 a2 s2 where "r = (Some n2, (Some w2, Some a2, Some s2))" "pf n2 = Some (potential_prefix n2)"
      by (auto simp: row_ok_def)
    then show ?case
    proof cases
      case blank
      have "emitted pf g ((None, x) # kept_rows no_data rows) = direct_pass (g + 1) False rows"
        by (rule Cons.IH(2)[OF oks])
      then show ?thesis using blank by (simp add: blank_row_def)
    next
      case cue
      have "emitted pf (g + 1) ((Some n2, no_data) # kept_rows (Some w2, Some a2, Some s2) rows)
              = \<lparr>cue_group_number = g + 1, cue_number = n2, cue_prefix = potential_prefix n2, cue_when = w2,
                  cue_action = a2, cue_state = s2\<rparr> # direct_pass (g + 1) True rows"
        by (rule Cons.IH(1)[OF cue(2) oks])
      then show ?thesis using cue by (simp add: no_data_def)
    qed
  }
qed

lemma emitted_start:
  assumes "\<forall>r \<in> set rows. row_ok pf r"
  shows "emitted pf g (kept_rows no_data rows) = direct_pass g False rows"
  using assms
proof (induction rows)
  case Nil
  then show ?case by simp
next
  case (Cons r rows)
  then have ok: "row_ok pf r" and oks: "\<forall>r \<in> set rows. row_ok pf r" by simp_all
  from ok consider (blank) "r = blank_row"
    | (cue) n w a s where "r = (Some n, (Some w, Some a, Some s))" "pf n = Some (potential_prefix n)"
    by (auto simp: row_ok_def)
  then show ?case
  proof cases
    case blank
    then show ?thesis using Cons.IH[OF oks] by (simp add: blank_row_def)
  next
    case cue
    have "emitted pf g ((Some n, no_data) # kept_rows (Some w, Some a, Some s) rows)
              = \<lparr>cue_group_number = g, cue_number = n, cue_prefix = potential_prefix n, cue_when = w,
                  cue_action = a, cue_state = s\<rparr> # direct_pass g True rows"
      by (rule emitted_after(1)[OF oks cue(2)])
    then show ?thesis using cue by (simp add: no_data_def)
  qed
qed


lemma named_cells_number: "map (named_cells ''Cue Number'') rows = rows"
  by (induction rows) (auto simp: named_cells_def)

lemma format_rows_general:
  assumes "Some ''last_row_storage'' \<notin> set (map fst rows)"
  shows "format_rows attrs ''Cue Number'' rows =
           (case first_problem attrs (map fst (kept_rows no_data rows)) of
              Some e \<Rightarrow> Inl e
            | None \<Rightarrow> Inr (emitted (prefix_of attrs) 0 (kept_rows no_data rows)))"
proof (cases "first_problem attrs (map fst (kept_rows no_data rows))")
  case (Some e)
  then have "group_prefix_loop attrs (map fst (kept_rows no_data rows)) 0 [] [None] = Inl e"
    by (simp add: loop_general)
  then show ?thesis
    unfolding format_rows_def Let_def named_cells_number kept_stored[OF assms] using Some by simp
next
  case None
  let ?K = "kept_rows no_data rows"
  let ?P = "map (case_option None (prefix_of attrs)) (map fst ?K)"
  have ne: "?K \<noteq> []" by (rule kept_rows_nonempty)
  have L: "group_prefix_loop attrs (map fst ?K) 0 [] [None] = Inr (groups_from 0 (map fst ?K), None # ?P)"
    using None by (simp add: loop_general)
  have bl: "shift_up None (butlast (None # ?P)) = butlast ?P @ [None]"
    using ne by (simp add: shift_up_def)
  have su: "shift_up no_data (map snd ?K) = tl (map snd ?K) @ [no_data]"
    using ne by (simp add: shift_up_def)
  have "format_rows attrs ''Cue Number'' rows =
          Inr (List.map_filter complete_cue
                 (zip (groups_from 0 (map fst ?K))
                   (zip (map fst ?K)
                     (zip (shift_up None (butlast (None # ?P))) (shift_up no_data (map snd ?K))))))"
    unfolding format_rows_def Let_def named_cells_number kept_stored[OF assms] L by (simp only: sum.case prod.case)
  also have "\<dots> = Inr (emitted (prefix_of attrs) 0 ?K)"
    by (simp only: bl su emitted_zip[OF ne])
  finally show ?thesis using None by simp
qed

lemma get_prefix_resolves:
  "resolves attrs n \<Longrightarrow> get_prefix attrs n = Inr (Some (potential_prefix n))"
proof -
  assume r: "resolves attrs n"
  let ?f = "filter (\<lambda>p. p = Some (potential_prefix n)) (map attr_cue_prefix attrs)"
  from r have len: "length ?f = 1" by (simp add: resolves_def)
  then obtain x where fx: "?f = [x]" by (cases ?f) auto
  then have "x \<in> set ?f" by simp
  then have "x = Some (potential_prefix n)" by simp
  then show ?thesis unfolding get_prefix_def Let_def fx by simp
qed

lemma get_prefix_sentinel: "get_prefix attrs ''last_row_storage'' = Inr (prefix_of attrs ''last_row_storage'')"
  by (simp add: get_prefix_def prefix_of_def Let_def)

lemma kept_rows_index:
  "x \<in> set (kept_rows prev rows) \<Longrightarrow> fst x = Some ''last_row_storage'' \<or> fst x \<in> fst ` set rows"
proof (induction rows arbitrary: prev)
  case Nil
  then show ?case by auto
next
  case (Cons r rows)
  obtain i d where r: "r = (i, d)" by (cases r)
  from Cons.prems r have "x = (i, prev) \<or> x \<in> set (kept_rows d rows)"
    by (auto split: if_splits)
  then show ?case using Cons.IH[of d] r by auto
qed

lemma first_problem_none:
  "(\<And>n. Some n \<in> set is \<Longrightarrow> \<exists>p. get_prefix attrs n = Inr p) \<Longrightarrow> first_problem attrs is = None"
proof (induction attrs "is" rule: first_problem.induct)
  case (1 attrs)
  then show ?case by simp
next
  case (2 attrs "is")
  then show ?case by simp
next
  case (3 attrs n "is")
  from 3(2)[of n] obtain p where p: "get_prefix attrs n = Inr p" by auto
  have "first_problem attrs is = None" using 3(1)[OF p] 3(2) by simp
  then show ?case using p by simp
qed

lemma valid_row_ok: "valid_row attrs names r \<Longrightarrow> row_ok (prefix_of attrs) r"
  by (erule valid_rowE) (auto simp: row_ok_def prefix_of_def get_prefix_resolves)

lemma valid_row_label: "valid_row attrs names r \<Longrightarrow> fst r \<noteq> Some ''last_row_storage''"
  by (erule valid_rowE) (auto simp: blank_row_def)

lemma valid_row_prefix:
  "valid_row attrs names r \<Longrightarrow> fst r = Some n \<Longrightarrow> get_prefix attrs n = Inr (Some (potential_prefix n))"
  by (erule valid_rowE) (auto simp: blank_row_def get_prefix_resolves)

lemma format_rows_valid:
  assumes "\<forall>r \<in> set rows. valid_row attrs names r"
  shows "format_rows attrs ''Cue Number'' rows = Inr (direct_pass 0 False rows)"
proof -
  have lbl: "Some ''last_row_storage'' \<notin> set (map fst rows)"
    using assms valid_row_label by force
  have "first_problem attrs (map fst (kept_rows no_data rows)) = None"
  proof (rule first_problem_none)
    fix n assume "Some n \<in> set (map fst (kept_rows no_data rows))"
    then obtain x where "x \<in> set (kept_rows no_data rows)" "fst x = Some n" by auto
    then have "Some n = Some ''last_row_storage'' \<or> Some n \<in> set (map fst rows)"
      using kept_rows_index[of x no_data rows] by simp
    then show "\<exists>p. get_prefix attrs n = Inr p"
    proof
      assume "Some n = Some ''last_row_storage''"
      then show ?thesis using get_prefix_sentinel by auto
    next
      assume "Some n \<in> set (map fst rows)"
      then obtain r where "r \<in> set rows" "fst r = Some n" by auto
      then show ?thesis using assms valid_row_prefix by blast
    qed
  qed
  moreover have "\<forall>r \<in> set rows. row_ok (prefix_of attrs) r"
    using assms valid_row_ok by blast
  ultimately show ?thesis
    by (simp add: format_rows_general[OF lbl] emitted_start)
qed


lemma direct_pass_head:
  "direct_pass g b rows = c # cs \<Longrightarrow> cue_group_number c = g \<or> (b \<and> cue_group_number c = g + 1)"
  by (induction g b rows arbitrary: c cs rule: direct_pass.induct) (auto split: if_splits)

lemma direct_pass_chain:
  "successively (\<lambda>x y. y = x \<or> y = x + 1) (map cue_group_number (direct_pass g b rows))"
proof (induction g b rows rule: direct_pass.induct)
  case (2 g after_cue n w a s rows)
  show ?case
  proof (cases "direct_pass g True rows")
    case Nil
    then show ?thesis by simp
  next
    case (Cons c cs)
    from direct_pass_head[OF Cons] have "cue_group_number c = g \<or> cue_group_number c = g + 1" by auto
    then show ?thesis using 2 Cons by (auto simp: successively_Cons)
  qed
qed simp_all

lemma chain_set:
  "successively (\<lambda>x y. y = x \<or> y = x + 1) gs \<Longrightarrow> gs \<noteq> [] \<Longrightarrow>
   set gs = {hd gs..last gs} \<and> hd gs \<le> last (gs :: int list)"
proof (induction gs)
  case Nil
  then show ?case by simp
next
  case (Cons x gs)
  show ?case
  proof (cases gs)
    case Nil
    then show ?thesis by simp
  next
    case (Cons y ys)
    with Cons.prems have st: "y = x \<or> y = x + 1" and ch: "successively (\<lambda>x y. y = x \<or> y = x + 1) gs"
      by (auto simp: successively_Cons)
    from Cons.IH[OF ch] Cons have IH: "set gs = {y..last gs}" "y \<le> last gs" by auto
    have "set (x # gs) = insert x {y..last gs}" using IH by simp
    also have "\<dots> = {x..last gs}" using st IH(2) by auto
    finally show ?thesis using Cons st IH(2) by auto
  qed
qed

lemma direct_pass_nonempty:
  "(Some n, (Some w, Some a, Some s)) \<in> set rows \<Longrightarrow> direct_pass g b rows \<noteq> []"
proof (induction rows arbitrary: g b)
  case Nil
  then show ?case by simp
next
  case (Cons r rows)
  show ?case
  proof (cases "r = (Some n, (Some w, Some a, Some s))")
    case True
    then show ?thesis by simp
  next
    case False
    with Cons.prems have ex: "(Some n, (Some w, Some a, Some s)) \<in> set rows" by auto
    have "(\<exists>g' b'. direct_pass g b (r # rows) = direct_pass g' b' rows) \<or> direct_pass g b (r # rows) \<noteq> []"
      by (cases "(g, b, r # rows)" rule: direct_pass.cases) auto
    then show ?thesis using Cons.IH[OF ex] by auto
  qed
qed

lemma direct_pass_groups:
  assumes "direct_pass 0 False rows \<noteq> []"
  shows "\<exists>m. max_group_of (direct_pass 0 False rows) = Some m \<and> 0 \<le> m \<and>
             set (map cue_group_number (direct_pass 0 False rows)) = {0..m}"
proof -
  let ?gs = "map cue_group_number (direct_pass 0 False rows)"
  from assms obtain c cs where cc: "direct_pass 0 False rows = c # cs" by (cases "direct_pass 0 False rows") auto
  from direct_pass_head[OF cc] have h: "hd ?gs = 0" using cc by simp
  have ne: "?gs \<noteq> []" using assms by simp
  from chain_set[OF direct_pass_chain ne] h have st: "set ?gs = {0..last ?gs}" and le: "0 \<le> last ?gs"
    by simp_all
  have "Max {0..last ?gs} = last ?gs" using le by (intro Max_eqI) auto
  then have "Max (set ?gs) = last ?gs" using st by simp
  then show ?thesis using st le assms by (auto simp: max_group_of_def)
qed



lemma check_columns_second:
  assumes "check_columns_names (i # cs) [''Cue Number'', ''When'', ''Action'', ''Cue State''] = Inr ()"
  shows "check_columns_names ([''Cue Group Number'', i, ''Cue Prefix''] @ cs)
           [''Cue Group Number'', ''Cue Number'', ''Cue Prefix'', ''When'', ''Action'', ''Cue State''] = Inr ()"
proof -
  from assms have four: "sort (i # cs) = sort [''Cue Number'', ''When'', ''Action'', ''Cue State'']"
    by (simp add: check_columns_names_def split: if_splits)
  have "sort ([''Cue Group Number'', i, ''Cue Prefix''] @ cs)
          = insort ''Cue Group Number'' (insort i (insort ''Cue Prefix'' (sort cs)))"
    by (simp add: sort_key_simps)
  also have "\<dots> = insort ''Cue Group Number'' (insort ''Cue Prefix'' (insort i (sort cs)))"
    by (simp only: insort_left_comm)
  also have "insort i (sort cs) = sort (i # cs)" by (simp add: sort_key_simps)
  also have "insort ''Cue Group Number'' (insort ''Cue Prefix'' (sort (i # cs)))
          = insort ''Cue Group Number'' (insort ''Cue Prefix''
              (sort [''Cue Number'', ''When'', ''Action'', ''Cue State'']))"
    by (simp only: four)
  also have "\<dots> = sort [''Cue Group Number'', ''Cue Number'', ''Cue Prefix'', ''When'', ''Action'', ''Cue State'']"
    by code_simp
  finally show ?thesis by (simp only: check_columns_names_def if_False simp_thms)
qed

lemma direct_pass_member:
  "c \<in> set (direct_pass g b rows) \<Longrightarrow>
   (Some (cue_number c), (Some (cue_when c), Some (cue_action c), Some (cue_state c))) \<in> set rows
   \<and> cue_prefix c = potential_prefix (cue_number c)"
  by (induction g b rows rule: direct_pass.induct) auto

lemma resolves_member:
  assumes "resolves attrs n"
  shows "Some (potential_prefix n) \<in> set (map attr_cue_prefix attrs)"
proof (rule ccontr)
  assume "Some (potential_prefix n) \<notin> set (map attr_cue_prefix attrs)"
  then have "\<forall>p \<in> set (map attr_cue_prefix attrs). \<not> (p = Some (potential_prefix n))" by blast
  then have "filter (\<lambda>p. p = Some (potential_prefix n)) (map attr_cue_prefix attrs) = []"
    by (rule filter_False)
  then have "length (filter (\<lambda>p. p = Some (potential_prefix n)) (map attr_cue_prefix attrs)) = 0"
    by (simp only: list.size)
  with assms show False unfolding resolves_def by simp
qed

lemma warp_cue_not_format_error: "fst (warp_cue n st) \<noteq> Inl (FormatError a p)"
  by (auto simp: warp_cue_def format_current_cues_def split: option.splits)


text \<open>
  What the formatter does on a sheet without incomplete rows. Take a sheet with the
  right columns and the cue numbers in the index, in which every row is blank or
  complete (cue number other than the label \<open>last_row_storage\<close>, When, Action and Cue
  State present, the prefix that of exactly one attribute, the cue state in the
  states sheet), with at least one cue row. Then \<open>format_all_cues\<close> succeeds; the
  stored cues are those of the forward pass, which numbers the runs of cue rows 0,
  1, 2, ... in source order and adds one at each run of blank rows between cues; the
  group numbers are exactly \<open>0..maxCueGroup\<close>; every cue's prefix and cue state exist
  in the attributes and states sheets; the current group is 0.
\<close>

lemma format_all_cues_valid_sheet:
  assumes "raw_index_name t = ''Cue Number''"
    and "check_columns_names (raw_index_name t # raw_column_names t)
           [''Cue Number'', ''When'', ''Action'', ''Cue State''] = Inr ()"
    and "\<forall>r \<in> set (raw_rows t). valid_row (attributes st) (map state_name (states st)) r"
    and "\<exists>r \<in> set (raw_rows t). r \<noteq> blank_row"
  shows "\<exists>st' m. format_all_cues t st = (Inr (), st')
          \<and> allCues st' = direct_pass 0 False (raw_rows t)
          \<and> maxCueGroup st' = Some m \<and> 0 \<le> m
          \<and> set (map cue_group_number (allCues st')) = {0..m}
          \<and> (\<forall>c \<in> set (allCues st').
                resolves (attributes st) (cue_number c)
                \<and> Some (cue_prefix c) \<in> set (map attr_cue_prefix (attributes st))
                \<and> cue_state c \<in> set (map state_name (states st)))
          \<and> cueNum st' = Some 0"
proof -
  let ?rows = "raw_rows t"
  let ?cues = "direct_pass 0 False ?rows"
  let ?names = "map state_name (states st)"
  have fr: "format_rows (attributes st) (raw_index_name t) ?rows = Inr ?cues"
    unfolding assms(1) using assms(3) by (rule format_rows_valid)
  have c2: "check_columns_names ([''Cue Group Number'', raw_index_name t, ''Cue Prefix''] @ raw_column_names t)
           [''Cue Group Number'', ''Cue Number'', ''Cue Prefix'', ''When'', ''Action'', ''Cue State''] = Inr ()"
    using assms(2) by (rule check_columns_second)
  have mem: "\<forall>c \<in> set ?cues. resolves (attributes st) (cue_number c)
                \<and> Some (cue_prefix c) \<in> set (map attr_cue_prefix (attributes st))
                \<and> cue_state c \<in> set ?names"
  proof
    fix c assume "c \<in> set ?cues"
    from direct_pass_member[OF this]
    have r: "(Some (cue_number c), (Some (cue_when c), Some (cue_action c), Some (cue_state c))) \<in> set ?rows"
      and p: "cue_prefix c = potential_prefix (cue_number c)" by simp_all
    from assms(3) r
    have "valid_row (attributes st) ?names
            (Some (cue_number c), (Some (cue_when c), Some (cue_action c), Some (cue_state c)))"
      by blast
    then have "resolves (attributes st) (cue_number c)" "cue_state c \<in> set ?names" by simp_all
    then show "resolves (attributes st) (cue_number c)
                \<and> Some (cue_prefix c) \<in> set (map attr_cue_prefix (attributes st))
                \<and> cue_state c \<in> set ?names"
      using p resolves_member by simp
  qed
  from assms(4) obtain r where r: "r \<in> set ?rows" "r \<noteq> blank_row" by blast
  from assms(3) r(1) have "valid_row (attributes st) ?names r" by blast
  then obtain n w a s where "r = (Some n, (Some w, Some a, Some s))"
    using r(2) by (elim valid_rowE) auto
  with r(1) have ne: "?cues \<noteq> []" using direct_pass_nonempty by blast
  from direct_pass_groups[OF ne] obtain m where m: "max_group_of ?cues = Some m" "0 \<le> m"
    "set (map cue_group_number ?cues) = {0..m}" by blast
  then have "0 \<in> set (map cue_group_number ?cues)" by simp
  then have g0: "group_rows 0 ?cues \<noteq> []"
    by (auto simp: group_rows_def filter_empty_conv)
  let ?st' = "st\<lparr>allCues := ?cues, maxCueGroup := Some m, cueNum := Some 0,
                  currentCues := map to_current (group_rows 0 ?cues),
                  nodes := \<lparr>nf_rows = map (node_shell \<circ> to_current) (group_rows 0 ?cues),
                            nf_has_last_updated = False\<rparr>\<rparr>"
  have w: "warp_cue 0 (update_max_cue_group (st\<lparr>allCues := ?cues\<rparr>)) = (Inr True, ?st')"
    using m(1,2) g0
    by (simp add: warp_cue_def update_max_cue_group_def format_current_cues_def reset_nodes_def)
  have ok: "\<not> (\<exists>c \<in> set ?cues. cue_state c \<notin> set ?names)" using mem by blast
  have "format_all_cues t st = (Inr (), ?st')"
    using ok c2 by (simp add: format_all_cues_def assms(2) fr w)
  then show ?thesis using m mem by auto
qed

text \<open>
  Claim C5, amended. When \<open>format_all_cues\<close> raises FormatError the whole state is as
  before the call: neither the raw sheet nor anything derived from it is stored.
  The all-cues store changes only when every check has passed, and then it holds
  the formatted cues, whose cue states are all in the states sheet. No check raises
  a warning, so the warning handler never runs.
\<close>

theorem format_all_cues_fatal_unchanged:
  "(format_all_cues t st = (Inl (FormatError a p), st') \<longrightarrow> st' = st)
   \<and> (allCues (snd (format_all_cues t st)) \<noteq> allCues st \<longrightarrow>
        (\<exists>cues. format_rows (attributes st) (raw_index_name t) (raw_rows t) = Inr cues
               \<and> allCues (snd (format_all_cues t st)) = cues
               \<and> (\<forall>c \<in> set cues. cue_state c \<in> set (map state_name (states st)))
               \<and> (\<forall>b q. fst (format_all_cues t st) \<noteq> Inl (FormatError b q))))"
proof -
  have frame: "\<And>n s. allCues (snd (warp_cue n s)) = allCues s"
    by (auto simp: warp_cue_def format_current_cues_def reset_nodes_def split: option.splits)
  have nfe: "\<And>n s b q. fst (warp_cue n s) \<noteq> Inl (FormatError b q)"
    by (rule warp_cue_not_format_error)
  show ?thesis
  proof (cases "check_columns_names (raw_index_name t # raw_column_names t)
             [''Cue Number'', ''When'', ''Action'', ''Cue State'']")
    case (Inl e)
    then show ?thesis by (simp add: format_all_cues_def)
  next
    case c1: (Inr u)
    show ?thesis
    proof (cases "format_rows (attributes st) (raw_index_name t) (raw_rows t)")
      case (Inl e)
      then show ?thesis using c1 by (simp add: format_all_cues_def)
    next
      case fr: (Inr cues)
      show ?thesis
      proof (cases "check_columns_names
                       ([''Cue Group Number'', raw_index_name t, ''Cue Prefix''] @ raw_column_names t)
                       [''Cue Group Number'', ''Cue Number'', ''Cue Prefix'', ''When'', ''Action'', ''Cue State'']")
        case (Inl e)
        then show ?thesis using c1 fr by (simp add: format_all_cues_def)
      next
        case c2: (Inr v)
        show ?thesis
        proof (cases "\<exists>c \<in> set cues. cue_state c \<notin> set (map state_name (states st))")
          case True
          then show ?thesis using c1 fr c2 by (simp add: format_all_cues_def)
        next
          case False
          let ?w = "warp_cue 0 (update_max_cue_group (st\<lparr>allCues := cues\<rparr>))"
          obtain res s2 where w: "?w = (res, s2)" by (cases ?w)
          have a2: "allCues s2 = cues"
            using frame[of 0 "update_max_cue_group (st\<lparr>allCues := cues\<rparr>)"] w
            by (simp add: update_max_cue_group_def)
          have r2: "\<And>b q. res \<noteq> Inl (FormatError b q)"
            using nfe[of 0 "update_max_cue_group (st\<lparr>allCues := cues\<rparr>)"] w by simp
          have f: "format_all_cues t st = (case res of Inl e \<Rightarrow> (Inl e, s2) | Inr b \<Rightarrow> (Inr (), s2))"
            using c1 fr c2 False w by (simp add: format_all_cues_def split: sum.splits)
          show ?thesis using f a2 r2 False fr by (cases res) auto
        qed
      qed
    qed
  qed
qed


lemma kept_rows_leading: "kept_rows no_data (replicate j blank_row @ rows) = kept_rows no_data rows"
  by (induction j) (simp_all add: blank_row_def)

lemma emitted_trailing_cons:
  "emitted pf g (x # kept_rows prev (rows @ [blank_row])) = emitted pf g (x # kept_rows prev rows)"
proof (induction rows arbitrary: prev g x)
  case Nil
  obtain i d where x: "x = (i, d)" by (cases x)
  show ?case by (cases i) (simp_all add: x blank_row_def Let_def)
next
  case (Cons r rows)
  obtain i d where r: "r = (i, d)" by (cases r)
  obtain j e where x: "x = (j, e)" by (cases x)
  show ?case
  proof (cases "i = None \<and> prev = no_data")
    case True
    then show ?thesis using Cons.IH[where ?prev = d and ?g = g and ?x = x] r by simp
  next
    case False
    then have k1: "kept_rows prev ((r # rows) @ [blank_row]) = (i, prev) # kept_rows d (rows @ [blank_row])"
      and k2: "kept_rows prev (r # rows) = (i, prev) # kept_rows d rows"
      using r by auto
    show ?thesis
      unfolding k1 k2 x emitted.simps Let_def
      using Cons.IH[where ?prev = d and ?x = "(i, prev)"] by simp
  qed
qed

lemma emitted_trailing:
  "emitted pf g (kept_rows prev (rows @ [blank_row])) = emitted pf g (kept_rows prev rows)"
proof (induction rows arbitrary: prev)
  case Nil
  then show ?case by (simp add: blank_row_def)
next
  case (Cons r rows)
  obtain i d where r: "r = (i, d)" by (cases r)
  show ?case
  proof (cases "i = None \<and> prev = no_data")
    case True
    then show ?thesis using Cons.IH[of d] r by simp
  next
    case False
    then have k1: "kept_rows prev ((r # rows) @ [blank_row]) = (i, prev) # kept_rows d (rows @ [blank_row])"
      and k2: "kept_rows prev (r # rows) = (i, prev) # kept_rows d rows"
      using r by auto
    show ?thesis unfolding k1 k2 by (rule emitted_trailing_cons)
  qed
qed

lemma first_problem_trailing:
  "first_problem attrs (map fst (kept_rows prev (rows @ [blank_row])))
     = first_problem attrs (map fst (kept_rows prev rows))"
proof (induction rows arbitrary: prev)
  case Nil
  then show ?case by (simp add: blank_row_def)
next
  case (Cons r rows)
  obtain i d where r: "r = (i, d)" by (cases r)
  show ?case
  proof (cases i)
    case None
    then show ?thesis using Cons.IH[of d] r by simp
  next
    case (Some n)
    then show ?thesis using Cons.IH[of d] r by (simp split: sum.splits)
  qed
qed

lemma format_rows_trailing:
  assumes "Some ''last_row_storage'' \<notin> set (map fst rows)"
  shows "format_rows attrs ''Cue Number'' (rows @ replicate k blank_row) = format_rows attrs ''Cue Number'' rows"
proof (induction k)
  case 0
  then show ?case by simp
next
  case (Suc k)
  let ?rows = "rows @ replicate k blank_row"
  have l: "Some ''last_row_storage'' \<notin> set (map fst ?rows)"
    using assms by (auto simp: blank_row_def)
  have l': "Some ''last_row_storage'' \<notin> set (map fst (?rows @ [blank_row]))"
    using l by (simp add: blank_row_def)
  have "rows @ replicate (Suc k) blank_row = ?rows @ [blank_row]"
    by (simp add: replicate_append_same)
  then have "format_rows attrs ''Cue Number'' (rows @ replicate (Suc k) blank_row) = format_rows attrs ''Cue Number'' (?rows @ [blank_row])"
    by (simp only:)
  also have "\<dots> = format_rows attrs ''Cue Number'' ?rows"
    by (simp only: format_rows_general[OF l] format_rows_general[OF l'] emitted_trailing first_problem_trailing)
  finally show ?case using Suc by simp
qed

lemma format_rows_blank_runs:
  assumes "Some ''last_row_storage'' \<notin> set (map fst rows)"
  shows "format_rows attrs ''Cue Number'' (replicate j blank_row @ rows @ replicate k blank_row) = format_rows attrs ''Cue Number'' rows"
proof -
  let ?rows = "rows @ replicate k blank_row"
  have l: "Some ''last_row_storage'' \<notin> set (map fst ?rows)"
    using assms by (auto simp: blank_row_def)
  have l': "Some ''last_row_storage'' \<notin> set (map fst (replicate j blank_row @ ?rows))"
    using l by (auto simp: blank_row_def)
  have "format_rows attrs ''Cue Number'' (replicate j blank_row @ ?rows) = format_rows attrs ''Cue Number'' ?rows"
    by (simp only: format_rows_general[OF l] format_rows_general[OF l'] kept_rows_leading)
  then show ?thesis using format_rows_trailing[OF assms] by simp
qed

lemma warp_cue_keeps:
  "allCues (snd (warp_cue n s)) = allCues s" "maxCueGroup (snd (warp_cue n s)) = maxCueGroup s"
  by (auto simp: warp_cue_def format_current_cues_def reset_nodes_def split: option.splits)

lemma format_all_cues_max:
  assumes "format_all_cues t st = (Inr (), st')"
  shows "maxCueGroup st' = max_group_of (allCues st')"
proof -
  obtain cues where w: "st' = snd (warp_cue 0 (update_max_cue_group (st\<lparr>allCues := cues\<rparr>)))"
  proof (cases "check_columns_names (raw_index_name t # raw_column_names t)
             [''Cue Number'', ''When'', ''Action'', ''Cue State'']")
    case (Inl e)
    then show ?thesis using assms by (simp add: format_all_cues_def)
  next
    case c1: (Inr u)
    show ?thesis
    proof (cases "format_rows (attributes st) (raw_index_name t) (raw_rows t)")
      case (Inl e)
      then show ?thesis using assms c1 by (simp add: format_all_cues_def)
    next
      case fr: (Inr cues)
      show ?thesis
      proof (cases "check_columns_names
                       ([''Cue Group Number'', raw_index_name t, ''Cue Prefix''] @ raw_column_names t)
                       [''Cue Group Number'', ''Cue Number'', ''Cue Prefix'', ''When'', ''Action'', ''Cue State'']")
        case (Inl e)
        then show ?thesis using assms c1 fr by (simp add: format_all_cues_def)
      next
        case c2: (Inr v)
        show ?thesis
        proof (cases "\<exists>c \<in> set cues. cue_state c \<notin> set (map state_name (states st))")
          case True
          then show ?thesis using assms c1 fr c2 by (simp add: format_all_cues_def)
        next
          case False
          let ?w = "warp_cue 0 (update_max_cue_group (st\<lparr>allCues := cues\<rparr>))"
          obtain res s2 where w: "?w = (res, s2)" by (cases ?w)
          have f: "format_all_cues t st = (case res of Inl e \<Rightarrow> (Inl e, s2) | Inr b \<Rightarrow> (Inr (), s2))"
            using c1 fr c2 False w by (simp add: format_all_cues_def split: sum.splits)
          from f assms have "st' = s2" by (cases res) simp_all
          then have "st' = snd ?w" using w by simp
          then show ?thesis by (rule that)
        qed
      qed
    qed
  qed
  then show ?thesis by (simp add: warp_cue_keeps update_max_cue_group_def)
qed

text \<open>
  Claim C2, amended. For every sheet that has the cue numbers in its index column
  and no row labelled \<open>last_row_storage\<close>, blank rows put before and after the rows
  change nothing in what \<open>format_all_cues\<close> returns and stores; and whenever it
  succeeds with a maximum group number, that group has at least one cue, so there
  is no empty last group. In the scenario of two cue rows and a trailing blank row
  this gives \<open>maxCueGroup = 0\<close> with both cues in group 0 (the witness).
\<close>

theorem format_all_cues_blank_runs:
  assumes "raw_index_name t = ''Cue Number''"
    and "Some ''last_row_storage'' \<notin> set (map fst (raw_rows t))"
  shows "format_all_cues (t\<lparr>raw_rows := replicate j blank_row @ raw_rows t @ replicate k blank_row\<rparr>) st
           = format_all_cues t st
       \<and> (\<forall>st' m. format_all_cues t st = (Inr (), st') \<and> maxCueGroup st' = Some m \<longrightarrow>
             group_rows m (allCues st') \<noteq> [])"
proof -
  let ?t = "t\<lparr>raw_rows := replicate j blank_row @ raw_rows t @ replicate k blank_row\<rparr>"
  have i: "raw_index_name ?t = raw_index_name t" and c: "raw_column_names ?t = raw_column_names t"
    by simp_all
  have r: "format_rows (attributes st) (raw_index_name t) (raw_rows ?t)
             = format_rows (attributes st) (raw_index_name t) (raw_rows t)"
    unfolding assms(1) by (simp add: format_rows_blank_runs[OF assms(2)])
  have a: "format_all_cues ?t st = format_all_cues t st"
    unfolding format_all_cues_def i c r ..
  have b: "group_rows m (allCues st') \<noteq> []"
    if "format_all_cues t st = (Inr (), st')" "maxCueGroup st' = Some m" for st' m
  proof -
    from format_all_cues_max[OF that(1)] that(2)
    have mx: "max_group_of (allCues st') = Some m" by simp
    then have ne: "allCues st' \<noteq> []" and m: "m = Max (set (map cue_group_number (allCues st')))"
      by (auto simp: max_group_of_def split: if_splits)
    have "Max (set (map cue_group_number (allCues st'))) \<in> set (map cue_group_number (allCues st'))"
      using ne by (intro Max_in) auto
    then have "m \<in> set (map cue_group_number (allCues st'))" using m by simp
    then show ?thesis by (auto simp: group_rows_def filter_empty_conv)
  qed
  show ?thesis using a b by blast
qed


text \<open>
  Claim C1 at concrete inputs. \<open>gap_table\<close> has the right columns, the prefix of every
  cue number is the prefix of exactly one attribute and every cue state it names is
  in the states sheet; the only row of its second run has an empty When cell.
  \<open>format_all_cues\<close> accepts the sheet, numbers the three runs and then drops the
  incomplete row: the group numbers are 0 and 2 with \<open>maxCueGroup = 2\<close>, not the
  contiguous range. In \<open>headless_table\<close> the incomplete row is the first run: the only
  group left is 1, and the formatter's own \<open>warp_cue(0)\<close> raises KeyError after the
  all-cues frame has been replaced.
\<close>

theorem format_all_cues_gap:
  "check_columns_names (raw_index_name gap_table # raw_column_names gap_table)
     [''Cue Number'', ''When'', ''Action'', ''Cue State''] = Inr ()
   \<and> list_all (\<lambda>r.
        (case fst r of None \<Rightarrow> True | Some n \<Rightarrow> resolves (attributes start_data) n)
        \<and> (case snd (snd (snd r)) of None \<Rightarrow> True
            | Some s \<Rightarrow> s \<in> set (map state_name (states start_data))))
        (raw_rows gap_table)
   \<and> fst (format_all_cues gap_table start_data) = Inr ()
   \<and> map cue_group_number (allCues (snd (format_all_cues gap_table start_data))) = [0, 2]
   \<and> maxCueGroup (snd (format_all_cues gap_table start_data)) = Some 2
   \<and> 1 \<notin> set (map cue_group_number (allCues (snd (format_all_cues gap_table start_data))))
   \<and> list_all (\<lambda>r.
        (case fst r of None \<Rightarrow> True | Some n \<Rightarrow> resolves (attributes start_data) n)
        \<and> (case snd (snd (snd r)) of None \<Rightarrow> True
            | Some s \<Rightarrow> s \<in> set (map state_name (states start_data))))
        (raw_rows headless_table)
   \<and> fst (format_all_cues headless_table start_data) = Inl KeyError
   \<and> map cue_group_number (allCues (snd (format_all_cues headless_table start_data))) = [1]
   \<and> map cue_number (allCues (snd (format_all_cues headless_table start_data))) = [''A2'']
   \<and> maxCueGroup (snd (format_all_cues headless_table start_data)) = Some 1"
  by code_simp

text \<open>
  A sheet with the runs \<open>A1\<close> and \<open>A2\<close>, both complete: the groups are 0 and 1.
\<close>

lemma format_all_cues_valid_sheet_example:
  "raw_index_name (cue_sheet [cue_row ''A1'', blank_row, cue_row ''A2'']) = ''Cue Number''
   \<and> list_all (valid_row (attributes start_data) (map state_name (states start_data)))
         (raw_rows (cue_sheet [cue_row ''A1'', blank_row, cue_row ''A2'']))
   \<and> (\<exists>st' m. format_all_cues (cue_sheet [cue_row ''A1'', blank_row, cue_row ''A2'']) start_data = (Inr (), st')
          \<and> maxCueGroup st' = Some m
          \<and> set (map cue_group_number (allCues st')) = {0..m})
   \<and> map cue_group_number (direct_pass 0 False (raw_rows (cue_sheet [cue_row ''A1'', blank_row, cue_row ''A2'']))) = [0, 1]"
proof -
  let ?t = "cue_sheet [cue_row ''A1'', blank_row, cue_row ''A2'']"
  have h1: "raw_index_name ?t = ''Cue Number''" by (simp add: cue_sheet_def)
  have h2: "check_columns_names (raw_index_name ?t # raw_column_names ?t)
           [''Cue Number'', ''When'', ''Action'', ''Cue State''] = Inr ()" by code_simp
  have h3: "\<forall>r \<in> set (raw_rows ?t). valid_row (attributes start_data) (map state_name (states start_data)) r"
    by code_simp
  have h4: "\<exists>r \<in> set (raw_rows ?t). r \<noteq> blank_row" by code_simp
  have d: "map cue_group_number (direct_pass 0 False (raw_rows ?t)) = [0, 1]" by code_simp
  have h3': "list_all (valid_row (attributes start_data) (map state_name (states start_data))) (raw_rows ?t)"
    using h3 by (simp only: list_all_iff)
  from format_all_cues_valid_sheet[OF h1 h2 h3 h4] h1 h3' d show ?thesis by blast
qed

text \<open>
  Claim C2, as stated, at its own scenario. Two cue rows and one trailing blank row
  are formatted without error, and \<open>maxCueGroup\<close> is 0, not 1: both cues are in group
  0 and the blank row leaves no trace. And a trailing blank row is not always
  without effect: on the sheet \<open>when_indexed_rows\<close>, whose index is When, the call
  raises KeyError with one cue stored, and with a blank row added at the end it
  returns with no cue stored.
\<close>

theorem format_all_cues_scenario_counterexample:
  "fst (format_all_cues scenario_table start_data) = Inr ()
   \<and> maxCueGroup (snd (format_all_cues scenario_table start_data)) = Some 0
   \<and> maxCueGroup (snd (format_all_cues scenario_table start_data)) \<noteq> Some 1
   \<and> map cue_group_number (allCues (snd (format_all_cues scenario_table start_data))) = [0, 0]
   \<and> fst (format_all_cues (when_indexed_table when_indexed_rows) start_data) = Inl KeyError
   \<and> map cue_number (allCues (snd (format_all_cues (when_indexed_table when_indexed_rows) start_data)))
        = [''A1'']
   \<and> fst (format_all_cues (when_indexed_table (when_indexed_rows @ [blank_row])) start_data) = Inr ()
   \<and> map cue_number
         (allCues (snd (format_all_cues (when_indexed_table (when_indexed_rows @ [blank_row])) start_data)))
        = []"
  by code_simp

theorem format_all_cues_blank_runs_witness:
  "raw_index_name (cue_sheet [cue_row ''A1'', cue_row ''A2'']) = ''Cue Number''
   \<and> Some ''last_row_storage'' \<notin> set (map fst (raw_rows (cue_sheet [cue_row ''A1'', cue_row ''A2''])))
   \<and> format_all_cues scenario_table start_data
       = format_all_cues (cue_sheet [cue_row ''A1'', cue_row ''A2'']) start_data
   \<and> fst (format_all_cues (cue_sheet [cue_row ''A1'', cue_row ''A2'']) start_data) = Inr ()
   \<and> maxCueGroup (snd (format_all_cues (cue_sheet [cue_row ''A1'', cue_row ''A2'']) start_data)) = Some 0
   \<and> group_rows 0 (allCues (snd (format_all_cues (cue_sheet [cue_row ''A1'', cue_row ''A2'']) start_data))) \<noteq> []"
proof -
  let ?t = "cue_sheet [cue_row ''A1'', cue_row ''A2'']"
  have h: "Some ''last_row_storage'' \<notin> set (map fst (raw_rows ?t))" by code_simp
  have h0: "raw_index_name ?t = ''Cue Number''" by (simp add: cue_sheet_def)
  have e: "?t\<lparr>raw_rows := replicate 0 blank_row @ raw_rows ?t @ replicate 1 blank_row\<rparr> = scenario_table"
    by (simp add: scenario_table_def cue_sheet_def)
  have f: "fst (format_all_cues ?t start_data) = Inr ()"
    and m: "maxCueGroup (snd (format_all_cues ?t start_data)) = Some 0" by code_simp+
  from f have p: "format_all_cues ?t start_data = (Inr (), snd (format_all_cues ?t start_data))"
    by (simp add: prod_eq_iff)
  from format_all_cues_blank_runs[OF h0 h, of 0 1 start_data]
  have a: "format_all_cues scenario_table start_data = format_all_cues ?t start_data"
    and b: "group_rows 0 (allCues (snd (format_all_cues ?t start_data))) \<noteq> []"
    using p m unfolding e by blast+
  show ?thesis using h0 h a b f m by blast
qed

text \<open>
  Claim C5, as stated, at a concrete input. The sheet names a cue state that the
  states sheet does not have; \<open>format_all_cues\<close> raises FormatError and the all-cues
  store still holds the old show: the operator's row is not stored.
\<close>

theorem format_all_cues_fatal_counterexample:
  "fst (format_all_cues unknown_state_table start_data) = Inl (FormatError ''all cues'' cue_states_problem)
   \<and> allCues (snd (format_all_cues unknown_state_table start_data)) = allCues start_data
   \<and> \<not> rows_stored (raw_rows unknown_state_table) (snd (format_all_cues unknown_state_table start_data))"
  by code_simp

theorem format_all_cues_fatal_unchanged_witness:
  "format_all_cues unknown_state_table start_data
     = (Inl (FormatError ''all cues'' cue_states_problem), snd (format_all_cues unknown_state_table start_data))
   \<and> snd (format_all_cues unknown_state_table start_data) = start_data
   \<and> allCues (snd (format_all_cues scenario_table start_data)) \<noteq> allCues start_data
   \<and> (\<exists>cues. format_rows (attributes start_data) (raw_index_name scenario_table) (raw_rows scenario_table) = Inr cues
          \<and> allCues (snd (format_all_cues scenario_table start_data)) = cues)"
proof -
  have f: "fst (format_all_cues unknown_state_table start_data) = Inl (FormatError ''all cues'' cue_states_problem)"
    by code_simp
  then have p: "format_all_cues unknown_state_table start_data
     = (Inl (FormatError ''all cues'' cue_states_problem), snd (format_all_cues unknown_state_table start_data))"
    by (simp add: prod_eq_iff)
  have n: "map cue_number (allCues (snd (format_all_cues scenario_table start_data))) \<noteq> map cue_number (allCues start_data)"
    by code_simp
  then have n': "allCues (snd (format_all_cues scenario_table start_data)) \<noteq> allCues start_data" by auto
  from format_all_cues_fatal_unchanged[of unknown_state_table start_data "''all cues''" cue_states_problem
         "snd (format_all_cues unknown_state_table start_data)"] p
  have a: "snd (format_all_cues unknown_state_table start_data) = start_data" by blast
  from format_all_cues_fatal_unchanged[of scenario_table start_data] n'
  have b: "\<exists>cues. format_rows (attributes start_data) (raw_index_name scenario_table) (raw_rows scenario_table) = Inr cues
          \<and> allCues (snd (format_all_cues scenario_table start_data)) = cues" by blast
  show ?thesis using p a n' b by blast
qed

text \<open>
  The formatter on a sheet whose index is When. The column Cue Number is then one
  of the shifted columns: the first cue number read by the loop is missing, the
  numbering starts at 1, and the one row left pairs \<open>A1\<close> with the cells of the
  row below it and the label \<open>last_row_storage\<close>; \<open>warp_cue(0)\<close> raises KeyError. With
  a blank row at the end nothing is left, and the call returns. So blank rows
  at the end are without effect only when the cue numbers are the index.
\<close>

lemma format_all_cues_when_indexed:
  "fst (format_all_cues (when_indexed_table when_indexed_rows) start_data) = Inl KeyError
   \<and> allCues (snd (format_all_cues (when_indexed_table when_indexed_rows) start_data))
        = [\<lparr>cue_group_number = 1, cue_number = ''A1'', cue_prefix = ''A'',
            cue_when = ''last_row_storage'', cue_action = ''Fade out'', cue_state = ''Go''\<rparr>]
   \<and> fst (format_all_cues (when_indexed_table (when_indexed_rows @ [blank_row])) start_data) = Inr ()
   \<and> allCues (snd (format_all_cues (when_indexed_table (when_indexed_rows @ [blank_row])) start_data)) = []"
  by code_simp

end
